theory Spec2Isabelle
  imports Complex_Main "HOL-Library.Log_Nat"
begin

section \<open>Exceptions\<close>

text \<open>
  Every \<open>raise\<close> of the two modules is a value of this type. The database driver's
  exceptions keep the names of their psycopg2 classes.
\<close>

datatype error =
    OperationalError
  | ProgrammingError
  | IntegrityError
  | DataError
  | UnboundLocalError
  | ValueError
  | TypeError
  | IndexError
  | AttributeError
  | ZeroDivisionError
  | OverflowError
  | OSError

section \<open>data\_quality.py: the data model\<close>

datatype QualityCheckType = COMPLETENESS | ACCURACY | CONSISTENCY | VALIDITY | TIMELINESS

fun type_value :: "QualityCheckType \<Rightarrow> string" where
  "type_value COMPLETENESS = ''completeness''"
| "type_value ACCURACY = ''accuracy''"
| "type_value CONSISTENCY = ''consistency''"
| "type_value VALIDITY = ''validity''"
| "type_value TIMELINESS = ''timeliness''"

text \<open>
  The values of a \<open>validation_rules\<close> dictionary: a number (for \<open>min\<close> and \<open>max\<close>) or a
  list of strings (for \<open>allowed_values\<close>). The dictionary itself is the list of its items
  in insertion order.
\<close>

datatype rule_value = Number int | Strings "string list"

type_synonym validation_rules = "(string \<times> rule_value) list"

text \<open>
  The values stored in the \<open>details\<close> dictionary of a result; a float is a real number or
  one of the two infinities.
\<close>

datatype detail =
  DInt int | DReal real | DStr string | DRules validation_rules | DInfinity | DNegInfinity

record QualityCheckResult =
  check_type :: QualityCheckType
  table_name :: string
  column_name :: string
  check_date :: int
  passed :: bool
  details :: "(string \<times> detail) list"
  error_count :: int
  total_count :: int

section \<open>The statements sent to the database\<close>

text \<open>
  One condition of the \<open>WHEN\<close> clause built by \<open>check_accuracy\<close>, on the checked column:
  \<open>col >= v\<close>, \<open>col <= v\<close> and \<open>col IN (...)\<close>.
\<close>

datatype condition = Ge rule_value | Le rule_value | In "string list"

text \<open>
  The seven statements the checks build, each with the names spliced into its text:
  \<^item> \<open>SELECT COUNT(*), COUNT(col) FROM t\<close>
  \<^item> \<open>SELECT COUNT(*), COUNT(CASE WHEN c1 AND ... AND cn THEN 1 END) FROM t\<close>
  \<^item> \<open>SELECT COUNT(*) FROM t LEFT JOIN r ON t.col = r.rcol WHERE r.rcol IS NULL\<close>
  \<^item> \<open>SELECT COUNT(*) FROM t\<close>
  \<^item> \<open>SELECT COUNT(*), COUNT(CASE WHEN col ~ '^[0-9]+\.?[0-9]*$' THEN 1 END) FROM t\<close>
  \<^item> \<open>SELECT COUNT(*), COUNT(CASE WHEN col::date IS NOT NULL THEN 1 END) FROM t\<close>
  \<^item> \<open>SELECT COUNT(*), COUNT(CASE WHEN col >= NOW() - INTERVAL 'h hours' THEN 1 END) FROM t\<close>
\<close>

datatype query =
    CompletenessQuery string string
  | AccuracyQuery string string "condition list"
  | OrphanQuery string string string string
  | CountQuery string
  | NumericQuery string string
  | DateQuery string string
  | TimelinessQuery string string int

text \<open>
  The database as the checks see it: \<open>connect\<close> succeeds or raises, and \<open>cursor.execute\<close>
  followed by \<open>fetchone\<close> raises or yields one row of counts.
\<close>

record store =
  connect_ok :: bool
  execute :: "query \<Rightarrow> error + int list"

section \<open>Python's floats\<close>

text \<open>
  A Python float is an IEEE 754 double. Rounding to the nearest double, ties to the even
  mantissa: a double has 53 bits, so the doubles around \<open>x\<close> are the multiples of two to
  the power \<open>\<lfloor>log 2 \<bar>x\<bar>\<rfloor> - 52\<close>, and below the smallest normal number the multiples of
  two to the power \<open>-1074\<close>. The exponent \<open>\<lfloor>log 2 x\<rfloor>\<close> of a positive \<open>x\<close> is read off the
  bit length of \<open>\<lfloor>x\<rfloor>\<close> from 1 on, and of \<open>\<lceil>1 / x\<rceil> - 1\<close> below 1.
\<close>

definition round_even :: "real \<Rightarrow> int" where
  "round_even r =
     (let f = \<lfloor>r\<rfloor>; d = r - of_int f
      in if d < 1 / 2 then f else if d > 1 / 2 then f + 1 else if even f then f else f + 1)"

definition floor_log2 :: "real \<Rightarrow> int" where
  "floor_log2 x =
     (if x \<ge> 1 then int (floorlog 2 (nat \<lfloor>x\<rfloor>)) - 1
      else - int (floorlog 2 (nat (\<lceil>1 / x\<rceil> - 1))))"

definition ulp_exponent :: "real \<Rightarrow> int" where
  "ulp_exponent x = max (floor_log2 \<bar>x\<bar> - 52) (- 1074)"

definition round_double :: "real \<Rightarrow> real" where
  "round_double x =
     (if x = 0 then 0
      else sgn x * (of_int (round_even (\<bar>x\<bar> / 2 powi ulp_exponent x)) * 2 powi ulp_exponent x))"

text \<open>
  \<open>a / b\<close> on two \<open>int\<close>s is the quotient rounded once; it raises \<open>ZeroDivisionError\<close> for
  \<open>b = 0\<close> and \<open>OverflowError\<close> where the rounded quotient is beyond the largest double.
\<close>

definition true_div :: "int \<Rightarrow> int \<Rightarrow> error + real" where
  "true_div a b =
     (if b = 0 then Inl ZeroDivisionError
      else let q = round_double (real_of_int a / real_of_int b)
           in if \<bar>q\<bar> \<ge> 2 ^ 1024 then Inl OverflowError else Inr q)"

text \<open>
  \<open>x * y\<close> on floats is the product rounded once. A product beyond the largest double is
  \<open>inf\<close> or \<open>-inf\<close> in Python; here it is a real number of magnitude \<open>2 ^ 1024\<close> or more,
  which compares with 95, 98 and 100 as the infinity does.
\<close>

definition float_mul :: "real \<Rightarrow> real \<Rightarrow> real" where
  "float_mul x y = round_double (x * y)"

definition float_detail :: "real \<Rightarrow> detail" where
  "float_detail p =
     (if p \<ge> 2 ^ 1024 then DInfinity
      else if p \<le> - (2 ^ 1024) then DNegInfinity
      else DReal p)"

text \<open>The expression \<open>(count / total_count) * 100 if total_count > 0 else 0\<close>.\<close>

definition percentage :: "int \<Rightarrow> int \<Rightarrow> error + real" where
  "percentage count total_cnt =
     (if total_cnt > 0 then
        (case true_div count total_cnt of
           Inl e \<Rightarrow> Inl e
         | Inr q \<Rightarrow> Inr (float_mul q 100))
      else Inr 0)"

section \<open>data\_quality.py: the checks\<close>

text \<open>
  Every check has the shape
  \<^verbatim>\<open>try: conn = connect(); cursor = conn.cursor(); ...
  except Exception: log; raise
  finally: cursor.close(); conn.close()\<close>
  When \<open>connect\<close> raises, \<open>cursor\<close> is still unbound in the \<open>finally\<close> block, so the
  exception that leaves the method is \<open>UnboundLocalError\<close>.
\<close>

definition check_completeness :: "store \<Rightarrow> int \<Rightarrow> string \<Rightarrow> string \<Rightarrow> error + QualityCheckResult" where
  "check_completeness st now tbl col =
     (if \<not> connect_ok st then Inl UnboundLocalError
      else case execute st (CompletenessQuery tbl col) of
        Inl e \<Rightarrow> Inl e
      | Inr [total_cnt, non_null_count] \<Rightarrow>
          (case percentage non_null_count total_cnt of
             Inl e \<Rightarrow> Inl e
           | Inr completeness \<Rightarrow>
              (let is_passed = (completeness \<ge> 95)
               in Inr \<lparr>check_type = COMPLETENESS, table_name = tbl, column_name = col,
                       check_date = now, passed = is_passed,
                       details = [(''completeness_percentage'', float_detail completeness),
                                  (''null_count'', DInt (total_cnt - non_null_count)),
                                  (''non_null_count'', DInt non_null_count)],
                       error_count = total_cnt - non_null_count, total_count = total_cnt\<rparr>))
      | Inr _ \<Rightarrow> Inl ValueError)"

text \<open>
  The loop over \<open>validation_rules.items()\<close>: a key other than \<open>min\<close>, \<open>max\<close> and
  \<open>allowed_values\<close> matches no branch and appends nothing. Iterating over a number
  (\<open>for v in value\<close>) raises \<open>TypeError\<close>.
\<close>

fun validation_conditions :: "condition list \<Rightarrow> validation_rules \<Rightarrow> error + condition list" where
  "validation_conditions acc [] = Inr acc"
| "validation_conditions acc ((rule, v) # rest) =
     (if rule = ''min'' then validation_conditions (acc @ [Ge v]) rest
      else if rule = ''max'' then validation_conditions (acc @ [Le v]) rest
      else if rule = ''allowed_values'' then
        (case v of
           Strings vs \<Rightarrow> validation_conditions (acc @ [In vs]) rest
         | Number n \<Rightarrow> Inl TypeError)
      else validation_conditions acc rest)"

definition check_accuracy ::
  "store \<Rightarrow> int \<Rightarrow> string \<Rightarrow> string \<Rightarrow> validation_rules \<Rightarrow> error + QualityCheckResult" where
  "check_accuracy st now tbl col rules =
     (if \<not> connect_ok st then Inl UnboundLocalError
      else case validation_conditions [] rules of
        Inl e \<Rightarrow> Inl e
      | Inr conds \<Rightarrow>
         (case execute st (AccuracyQuery tbl col conds) of
            Inl e \<Rightarrow> Inl e
          | Inr [total_cnt, valid_count] \<Rightarrow>
              (case percentage valid_count total_cnt of
                 Inl e \<Rightarrow> Inl e
               | Inr accuracy \<Rightarrow>
                  (let is_passed = (accuracy \<ge> 98)
                   in Inr \<lparr>check_type = ACCURACY, table_name = tbl, column_name = col,
                           check_date = now, passed = is_passed,
                           details = [(''accuracy_percentage'', float_detail accuracy),
                                      (''invalid_count'', DInt (total_cnt - valid_count)),
                                      (''valid_count'', DInt valid_count),
                                      (''validation_rules'', DRules rules)],
                           error_count = total_cnt - valid_count, total_count = total_cnt\<rparr>))
          | Inr _ \<Rightarrow> Inl ValueError))"

text \<open>\<open>cursor.fetchone()[0]\<close> on a row without columns raises \<open>IndexError\<close>.\<close>

definition item0 :: "int list \<Rightarrow> error + int" where
  "item0 row = (case row of [] \<Rightarrow> Inl IndexError | x # _ \<Rightarrow> Inr x)"

definition check_consistency ::
  "store \<Rightarrow> int \<Rightarrow> string \<Rightarrow> string \<Rightarrow> string \<Rightarrow> string \<Rightarrow> error + QualityCheckResult" where
  "check_consistency st now tbl col reference_table reference_column =
     (if \<not> connect_ok st then Inl UnboundLocalError
      else case execute st (OrphanQuery tbl col reference_table reference_column) of
        Inl e \<Rightarrow> Inl e
      | Inr row1 \<Rightarrow>
         (case item0 row1 of
            Inl e \<Rightarrow> Inl e
          | Inr orphaned_count \<Rightarrow>
             (case execute st (CountQuery tbl) of
                Inl e \<Rightarrow> Inl e
              | Inr row2 \<Rightarrow>
                 (case item0 row2 of
                    Inl e \<Rightarrow> Inl e
                  | Inr total_cnt \<Rightarrow>
                     (case percentage (total_cnt - orphaned_count) total_cnt of
                        Inl e \<Rightarrow> Inl e
                      | Inr consistency \<Rightarrow>
                         (let is_passed = (consistency = 100)
                          in Inr \<lparr>check_type = CONSISTENCY, table_name = tbl,
                                  column_name = col, check_date = now, passed = is_passed,
                                  details = [(''consistency_percentage'', float_detail consistency),
                                             (''orphaned_count'', DInt orphaned_count),
                                             (''reference_table'', DStr reference_table),
                                             (''reference_column'', DStr reference_column)],
                                  error_count = orphaned_count, total_count = total_cnt\<rparr>))))))"

definition check_validity ::
  "store \<Rightarrow> int \<Rightarrow> string \<Rightarrow> string \<Rightarrow> string \<Rightarrow> error + QualityCheckResult" where
  "check_validity st now tbl col data_type =
     (if \<not> connect_ok st then Inl UnboundLocalError
      else if data_type \<noteq> ''numeric'' \<and> data_type \<noteq> ''date'' then Inl ValueError
      else case execute st (if data_type = ''numeric'' then NumericQuery tbl col
                            else DateQuery tbl col) of
        Inl e \<Rightarrow> Inl e
      | Inr [total_cnt, valid_count] \<Rightarrow>
          (case percentage valid_count total_cnt of
             Inl e \<Rightarrow> Inl e
           | Inr validity \<Rightarrow>
              (let is_passed = (validity = 100)
               in Inr \<lparr>check_type = VALIDITY, table_name = tbl, column_name = col,
                       check_date = now, passed = is_passed,
                       details = [(''validity_percentage'', float_detail validity),
                                  (''invalid_count'', DInt (total_cnt - valid_count)),
                                  (''valid_count'', DInt valid_count),
                                  (''data_type'', DStr data_type)],
                       error_count = total_cnt - valid_count, total_count = total_cnt\<rparr>))
      | Inr _ \<Rightarrow> Inl ValueError)"

definition check_timeliness ::
  "store \<Rightarrow> int \<Rightarrow> string \<Rightarrow> string \<Rightarrow> int \<Rightarrow> error + QualityCheckResult" where
  "check_timeliness st now tbl date_column max_age_hours =
     (if \<not> connect_ok st then Inl UnboundLocalError
      else case execute st (TimelinessQuery tbl date_column max_age_hours) of
        Inl e \<Rightarrow> Inl e
      | Inr [total_cnt, recent_count] \<Rightarrow>
          (case percentage recent_count total_cnt of
             Inl e \<Rightarrow> Inl e
           | Inr timeliness \<Rightarrow>
              (let is_passed = (timeliness \<ge> 95)
               in Inr \<lparr>check_type = TIMELINESS, table_name = tbl, column_name = date_column,
                       check_date = now, passed = is_passed,
                       details = [(''timeliness_percentage'', float_detail timeliness),
                                  (''outdated_count'', DInt (total_cnt - recent_count)),
                                  (''recent_count'', DInt recent_count),
                                  (''max_age_hours'', DInt max_age_hours)],
                       error_count = total_cnt - recent_count, total_count = total_cnt\<rparr>))
      | Inr _ \<Rightarrow> Inl ValueError)"

text \<open>
  An entry of the list \<open>checks\<close> in \<open>run_quality_checks\<close> is a tuple of a bound method and
  its arguments; \<open>check_func(*args)\<close> is the call below.
\<close>

datatype check_spec =
    Completeness string string
  | Accuracy string string validation_rules
  | Consistency string string string string
  | Validity string string string
  | Timeliness string string int

fun run_check :: "store \<Rightarrow> int \<Rightarrow> check_spec \<Rightarrow> error + QualityCheckResult" where
  "run_check st now (Completeness t c) = check_completeness st now t c"
| "run_check st now (Accuracy t c rules) = check_accuracy st now t c rules"
| "run_check st now (Consistency t c rt rc) = check_consistency st now t c rt rc"
| "run_check st now (Validity t c ty) = check_validity st now t c ty"
| "run_check st now (Timeliness t c h) = check_timeliness st now t c h"


section \<open>data\_quality.py: the runner and the report\<close>

text \<open>
  \<open>generate_quality_report\<close> builds a dictionary from \<open>self.results\<close> and dumps it into
  \<open>quality_report.json\<close>. The file system is the parameter \<open>sink\<close>: it accepts the report
  or raises. The report is returned where the source has written it.
\<close>

record check_detail =
  detail_check_type :: string
  detail_table_name :: string
  detail_column_name :: string
  detail_passed :: bool
  error_rate :: detail
  detail_details :: "(string \<times> detail) list"

record quality_report =
  timestamp :: int
  total_checks :: nat
  passed_checks :: nat
  failed_checks :: nat
  check_details :: "check_detail list"

text \<open>
  The error rate of a result, \<open>(error_count / total_count) * 100 if total_count > 0 else 0\<close>:
  the division can raise.
\<close>

definition error_rate_of :: "QualityCheckResult \<Rightarrow> error + detail" where
  "error_rate_of r =
     (case percentage (error_count r) (total_count r) of
        Inl e \<Rightarrow> Inl e
      | Inr p \<Rightarrow> Inr (float_detail p))"

text \<open>
  The dictionary appended for a result whose error rate is computed. (The loop below
  raises before it appends anything for a result whose error rate is not.)
\<close>

definition check_detail_of :: "QualityCheckResult \<Rightarrow> check_detail" where
  "check_detail_of r =
     \<lparr>detail_check_type = type_value (check_type r),
      detail_table_name = table_name r,
      detail_column_name = column_name r,
      detail_passed = passed r,
      error_rate = (case error_rate_of r of Inr d \<Rightarrow> d | Inl e \<Rightarrow> DReal 0),
      detail_details = details r\<rparr>"

text \<open>The loop \<open>for result in self.results\<close> of \<open>generate_quality_report\<close>.\<close>

fun report_details :: "check_detail list \<Rightarrow> QualityCheckResult list \<Rightarrow> error + check_detail list" where
  "report_details acc [] = Inr acc"
| "report_details acc (r # rs) =
     (case error_rate_of r of
        Inl e \<Rightarrow> Inl e
      | Inr d \<Rightarrow> report_details (acc @ [check_detail_of r]) rs)"

definition generate_quality_report ::
  "(quality_report \<Rightarrow> error option) \<Rightarrow> int \<Rightarrow> QualityCheckResult list \<Rightarrow> error + quality_report" where
  "generate_quality_report sink now rs =
     (case report_details [] rs of
        Inl e \<Rightarrow> Inl e
      | Inr ds \<Rightarrow>
         (let report = \<lparr>timestamp = now,
                        total_checks = length rs,
                        passed_checks = sum_list (map (\<lambda>r. 1) (filter passed rs)),
                        failed_checks = sum_list (map (\<lambda>r. 1) (filter (\<lambda>r. \<not> passed r) rs)),
                        check_details = ds\<rparr>
          in case sink report of Some e \<Rightarrow> Inl e | None \<Rightarrow> Inr report))"

text \<open>The list \<open>checks\<close> of \<open>run_quality_checks\<close>, in its order.\<close>

definition checks :: "check_spec list" where
  "checks =
     [Completeness ''core.customer'' ''email'',
      Completeness ''core.customer'' ''phone'',
      Completeness ''core.transaction'' ''amount'',
      Accuracy ''core.customer'' ''satisfaction_score'' [(''min'', Number 0), (''max'', Number 10)],
      Accuracy ''core.customer'' ''nps_score'' [(''min'', Number 0), (''max'', Number 10)],
      Accuracy ''core.transaction'' ''status''
        [(''allowed_values'', Strings [''COMPLETED'', ''PENDING'', ''FAILED''])],
      Consistency ''core.transaction'' ''customer_id'' ''core.customer'' ''customer_id'',
      Consistency ''core.transaction'' ''branch_id'' ''core.branch'' ''branch_id'',
      Consistency ''core.transaction'' ''product_id'' ''core.product'' ''product_id'',
      Validity ''core.transaction'' ''amount'' ''numeric'',
      Validity ''core.customer'' ''date_of_birth'' ''date'',
      Validity ''core.transaction'' ''transaction_date'' ''date'',
      Timeliness ''core.transaction'' ''transaction_date'' 24,
      Timeliness ''core.customer'' ''last_interaction_date'' (30 * 24)]"

text \<open>
  The object's state is the list \<open>self.results\<close>, set to \<open>[]\<close> by \<open>__init__\<close> and by
  nothing else.
\<close>

record DataQualityChecker =
  results :: "QualityCheckResult list"

definition init_checker :: DataQualityChecker where
  "init_checker = \<lparr>results = []\<rparr>"

text \<open>
  The loop \<open>for check_func, *args in checks\<close>: a result is appended to \<open>self.results\<close>; an
  exception is caught by \<open>except Exception\<close>, logged, and the loop goes on. The clock is
  read once for the run.
\<close>

fun run_checks ::
  "store \<Rightarrow> int \<Rightarrow> QualityCheckResult list \<Rightarrow> check_spec list \<Rightarrow> QualityCheckResult list" where
  "run_checks st now rs [] = rs"
| "run_checks st now rs (c # cs) =
     (case run_check st now c of
        Inr result \<Rightarrow> run_checks st now (rs @ [result]) cs
      | Inl e \<Rightarrow> run_checks st now rs cs)"

text \<open>
  The results of the checks of a list that return, in the list's order; a check that
  raises contributes nothing.
\<close>

definition returned :: "store \<Rightarrow> int \<Rightarrow> check_spec list \<Rightarrow> QualityCheckResult list" where
  "returned st now cs =
     concat (map (\<lambda>c. case run_check st now c of Inl e \<Rightarrow> [] | Inr r \<Rightarrow> [r]) cs)"

definition run_quality_checks ::
  "store \<Rightarrow> (quality_report \<Rightarrow> error option) \<Rightarrow> int \<Rightarrow> DataQualityChecker
     \<Rightarrow> (error + quality_report) \<times> DataQualityChecker" where
  "run_quality_checks st sink now self =
     (let self' = self\<lparr>results := run_checks st now (results self) checks\<rparr>
      in (generate_quality_report sink now (results self'), self'))"

text \<open>Stores and a file system for the examples.\<close>

definition writable :: "quality_report \<Rightarrow> error option" where
  "writable report = None"

definition answer_all :: "query \<Rightarrow> error + int list" where
  "answer_all q =
     (case q of
        OrphanQuery t c rt rc \<Rightarrow> Inr [0]
      | CountQuery t \<Rightarrow> Inr [10]
      | _ \<Rightarrow> Inr [10, 10])"

definition healthy_store :: store where
  "healthy_store = \<lparr>connect_ok = True, execute = answer_all\<rparr>"

definition answer_without_branch :: "query \<Rightarrow> error + int list" where
  "answer_without_branch q =
     (case q of
        OrphanQuery t c rt rc \<Rightarrow> (if rt = ''core.branch'' then Inl ProgrammingError else Inr [0])
      | CountQuery t \<Rightarrow> Inr [10]
      | _ \<Rightarrow> Inr [10, 10])"

definition store_without_branch :: store where
  "store_without_branch = \<lparr>connect_ok = True, execute = answer_without_branch\<rparr>"

section \<open>The threshold table of the specification\<close>





section \<open>A reference semantics of the statements\<close>

text \<open>
  What PostgreSQL answers to the seven statements over tables held in memory. A cell is
  \<open>None\<close> for \<open>NULL\<close>. A table has its column names and its rows; a row gives every
  column's cell.
\<close>

record 'v relation =
  schema :: "string list"
  tuples :: "(string \<Rightarrow> 'v option) list"

type_synonym 'v database = "string \<Rightarrow> 'v relation option"

text \<open>
  What the server computes on one cell that is not \<open>NULL\<close> depends on the column's type
  and stays a parameter: whether a condition of the accuracy check holds, whether the
  numeric pattern matches, whether the cast to \<open>date\<close> succeeds, and whether a date is
  within the given number of hours of \<open>NOW()\<close>.
\<close>

record 'v cell_ops =
  holds :: "condition \<Rightarrow> 'v \<Rightarrow> bool"
  numeric_text :: "'v \<Rightarrow> bool"
  casts_to_date :: "'v \<Rightarrow> bool"
  within_hours :: "int \<Rightarrow> 'v \<Rightarrow> bool"

text \<open>An unknown table or column is an error of the statement.\<close>

definition column_cells :: "'v database \<Rightarrow> string \<Rightarrow> string \<Rightarrow> error + 'v option list" where
  "column_cells db t c =
     (case db t of
        None \<Rightarrow> Inl ProgrammingError
      | Some rel \<Rightarrow>
          if c \<in> set (schema rel) then Inr (map (\<lambda>row. row c) (tuples rel))
          else Inl ProgrammingError)"

text \<open>
  SQL's \<open>=\<close> is three-valued: with \<open>NULL\<close> on either side it is unknown, and a join
  keeps a pair of rows only where its condition is true.
\<close>

definition sql_eq :: "'v option \<Rightarrow> 'v option \<Rightarrow> bool option" where
  "sql_eq a b = (case a of None \<Rightarrow> None | Some x \<Rightarrow> (case b of None \<Rightarrow> None | Some y \<Rightarrow> Some (x = y)))"

text \<open>
  \<open>t LEFT JOIN r ON t.col = r.rcol\<close>, projected to the two columns: a row of \<open>t\<close> is paired
  with every row of \<open>r\<close> it matches, and a row of \<open>t\<close> without a match is kept once, with
  every column of \<open>r\<close> set to \<open>NULL\<close> (the second component \<open>None\<close>).
\<close>

definition left_join :: "'v option list \<Rightarrow> 'v option list \<Rightarrow> ('v option \<times> 'v option option) list" where
  "left_join ts rs =
     concat (map (\<lambda>t. let ms = filter (\<lambda>r. sql_eq t r = Some True) rs
                       in if ms = [] then [(t, None)] else map (\<lambda>r. (t, Some r)) ms) ts)"

text \<open>\<open>WHERE r.rcol IS NULL\<close> on a row of the join.\<close>

definition ref_is_null :: "'v option \<times> 'v option option \<Rightarrow> bool" where
  "ref_is_null jr = (case snd jr of None \<Rightarrow> True | Some cell \<Rightarrow> cell = None)"

text \<open>
  A \<open>WHEN\<close> clause needs an expression: the join of no condition is the empty string,
  \<open>IN ()\<close> and a Python list after \<open>>=\<close> or \<open><=\<close> are no SQL either.
\<close>

fun well_formed :: "condition \<Rightarrow> bool" where
  "well_formed (Ge (Number n)) = True"
| "well_formed (Ge (Strings vs)) = False"
| "well_formed (Le (Number n)) = True"
| "well_formed (Le (Strings vs)) = False"
| "well_formed (In vs) = (vs \<noteq> [])"

definition count_where :: "('v \<Rightarrow> bool) \<Rightarrow> 'v option list \<Rightarrow> int" where
  "count_where p cells =
     int (length (filter (\<lambda>cell. case cell of None \<Rightarrow> False | Some v \<Rightarrow> p v) cells))"

fun pg_execute :: "'v cell_ops \<Rightarrow> 'v database \<Rightarrow> query \<Rightarrow> error + int list" where
  "pg_execute ops db (CompletenessQuery t c) =
     (case column_cells db t c of
        Inl e \<Rightarrow> Inl e
      | Inr cells \<Rightarrow> Inr [int (length cells), count_where (\<lambda>v. True) cells])"
| "pg_execute ops db (AccuracyQuery t c conds) =
     (if conds = [] then Inl ProgrammingError
      else if list_ex (\<lambda>cd. \<not> well_formed cd) conds then Inl ProgrammingError
      else case column_cells db t c of
        Inl e \<Rightarrow> Inl e
      | Inr cells \<Rightarrow>
          Inr [int (length cells), count_where (\<lambda>v. list_all (\<lambda>cd. holds ops cd v) conds) cells])"
| "pg_execute ops db (OrphanQuery t c rt rc) =
     (case column_cells db t c of
        Inl e \<Rightarrow> Inl e
      | Inr ts \<Rightarrow>
         (case column_cells db rt rc of
            Inl e \<Rightarrow> Inl e
          | Inr rs \<Rightarrow> Inr [int (length (filter ref_is_null (left_join ts rs)))]))"
| "pg_execute ops db (CountQuery t) =
     (case db t of
        None \<Rightarrow> Inl ProgrammingError
      | Some rel \<Rightarrow> Inr [int (length (tuples rel))])"
| "pg_execute ops db (NumericQuery t c) =
     (case column_cells db t c of
        Inl e \<Rightarrow> Inl e
      | Inr cells \<Rightarrow> Inr [int (length cells), count_where (numeric_text ops) cells])"
| "pg_execute ops db (DateQuery t c) =
     (case column_cells db t c of
        Inl e \<Rightarrow> Inl e
      | Inr cells \<Rightarrow>
          if count_where (\<lambda>v. \<not> casts_to_date ops v) cells > 0 then Inl DataError
          else Inr [int (length cells), count_where (\<lambda>v. True) cells])"
| "pg_execute ops db (TimelinessQuery t c h) =
     (case column_cells db t c of
        Inl e \<Rightarrow> Inl e
      | Inr cells \<Rightarrow> Inr [int (length cells), count_where (within_hours ops h) cells])"

definition pg_store :: "'v cell_ops \<Rightarrow> 'v database \<Rightarrow> store" where
  "pg_store ops db = \<lparr>connect_ok = True, execute = pg_execute ops db\<rparr>"

text \<open>
  An example database over integer cells: one transaction whose \<open>branch_id\<close> is \<open>NULL\<close>,
  and one branch.
\<close>

definition int_ops :: "int cell_ops" where
  "int_ops =
     \<lparr>holds = (\<lambda>cd v. case cd of Ge (Number n) \<Rightarrow> v \<ge> n | Le (Number n) \<Rightarrow> v \<le> n | _ \<Rightarrow> False),
      numeric_text = (\<lambda>v. True),
      casts_to_date = (\<lambda>v. True),
      within_hours = (\<lambda>h v. True)\<rparr>"

definition null_branch_db :: "int database" where
  "null_branch_db t =
     (if t = ''core.transaction'' then
        Some \<lparr>schema = [''transaction_id'', ''branch_id''],
              tuples = [(\<lambda>c. if c = ''transaction_id'' then Some 1 else None)]\<rparr>
      else if t = ''core.branch'' then
        Some \<lparr>schema = [''branch_id''], tuples = [(\<lambda>c. Some 1)]\<rparr>
      else None)"

text \<open>The specification's example for the accuracy check: the values 5, 11, -1 and 7.\<close>

definition scores_db :: "int database" where
  "scores_db t =
     (if t = ''core.customer'' then
        Some \<lparr>schema = [''satisfaction_score''],
              tuples = [(\<lambda>c. Some 5), (\<lambda>c. Some 11), (\<lambda>c. Some (- 1)), (\<lambda>c. Some 7)]\<rparr>
      else None)"



section \<open>etl\_processes.py: the records\<close>

text \<open>
  A row of a \<open>DataFrame\<close> is a record of its columns. A date or a time stamp is the number
  of seconds since the epoch (a date is its midnight), so \<open>pd.to_datetime\<close> leaves such a
  value as it is. \<open>transaction_time\<close> is text: the generator writes \<open>'HH:MM:SS'\<close>, and the
  transform replaces it by the time of day it parses from it, written as text as well.
\<close>

record transaction =
  transaction_id :: int
  transaction_date :: int
  transaction_time :: string
  branch_id :: int
  customer_id :: int
  product_id :: int
  amount :: real
  transaction_type_id :: int
  employee_id :: int
  channel_id :: int
  status :: string

record transformed_transaction = transaction +
  is_weekend :: bool
  is_holiday :: bool

record customer =
  customer_id :: int
  first_name :: string
  last_name :: string
  date_of_birth :: int
  address :: string
  city :: string
  state :: string
  zip_code :: string
  email :: string
  phone :: string
  customer_segment_id :: int
  acquisition_date :: int
  last_interaction_date :: int
  satisfaction_score :: int
  nps_score :: int
  status :: string

record transformed_customer = customer +
  age :: int
  customer_tenure_days :: int

section \<open>etl\_processes.py: the transforms\<close>

text \<open>\<open>dt.dayofweek\<close>: Monday is 0, and the epoch was a Thursday.\<close>

definition dayofweek :: "int \<Rightarrow> int" where
  "dayofweek ts = (ts div 86400 + 3) mod 7"

definition add_weekend_columns :: "transaction \<Rightarrow> transformed_transaction" where
  "add_weekend_columns r =
     transaction.extend r
       (transformed_transaction.fields
          (dayofweek (transaction_date r) \<in> {5, 6})
          (dayofweek (transaction_date r) \<in> {5, 6}))"

text \<open>
  \<open>pd.to_datetime(df['transaction_time']).dt.time\<close> parses every value of the column.
  pandas' parser is the parameter \<open>to_time\<close>: on one text it yields the time of day or
  raises, and the first value it rejects makes the transform raise. The date column holds
  dates and converts without an error.
\<close>

fun convert_times ::
  "(string \<Rightarrow> error + string) \<Rightarrow> transaction list \<Rightarrow> error + transaction list" where
  "convert_times to_time [] = Inr []"
| "convert_times to_time (r # rs) =
     (case to_time (transaction_time r) of
        Inl e \<Rightarrow> Inl e
      | Inr t \<Rightarrow>
         (case convert_times to_time rs of
            Inl e \<Rightarrow> Inl e
          | Inr rs' \<Rightarrow> Inr (r\<lparr>transaction_time := t\<rparr> # rs')))"

text \<open>
  The body of \<open>transform_transactions\<close> is a \<open>try\<close> block whose handler logs and re-raises:
  the conversions, the two derived columns, then the two filters.
\<close>

definition transform_transactions ::
  "(string \<Rightarrow> error + string) \<Rightarrow> transaction list \<Rightarrow> error + transformed_transaction list" where
  "transform_transactions to_time df =
     (case convert_times to_time df of
        Inl e \<Rightarrow> Inl e
      | Inr converted \<Rightarrow>
          Inr (filter (\<lambda>r. transaction.status r \<in> {''COMPLETED'', ''PENDING'', ''FAILED''})
                 (filter (\<lambda>r. amount r \<ge> 0) (map add_weekend_columns converted))))"

text \<open>
  \<open>(datetime.now() - df[col]).dt\<close> is the accessor of a series of time spans (here in
  seconds). pandas gives it the integer fields \<open>days\<close>, \<open>seconds\<close>, \<open>microseconds\<close> and
  \<open>nanoseconds\<close>; it has no attribute \<open>years\<close>, and reading one raises \<open>AttributeError\<close>
  whatever the series holds.
\<close>

definition timedelta_dt :: "string \<Rightarrow> int list \<Rightarrow> error + int list" where
  "timedelta_dt attr spans =
     (if attr = ''days'' then Inr (map (\<lambda>s. s div 86400) spans)
      else if attr = ''seconds'' then Inr (map (\<lambda>s. s mod 86400) spans)
      else if attr = ''microseconds'' then Inr (map (\<lambda>s. 0) spans)
      else if attr = ''nanoseconds'' then Inr (map (\<lambda>s. 0) spans)
      else Inl AttributeError)"

definition add_customer_columns :: "customer \<times> int \<times> int \<Rightarrow> transformed_customer" where
  "add_customer_columns x =
     (case x of (r, a, d) \<Rightarrow> customer.extend r (transformed_customer.fields a d))"

text \<open>\<open>Series.between(0, 10)\<close> includes both ends.\<close>

definition between :: "int \<Rightarrow> int \<Rightarrow> int \<Rightarrow> bool" where
  "between lo hi x = (lo \<le> x \<and> x \<le> hi)"

definition transform_customers :: "int \<Rightarrow> customer list \<Rightarrow> error + transformed_customer list" where
  "transform_customers now df =
     (case timedelta_dt ''years'' (map (\<lambda>r. now - date_of_birth r) df) of
        Inl e \<Rightarrow> Inl e
      | Inr ages \<Rightarrow>
         (case timedelta_dt ''days'' (map (\<lambda>r. now - acquisition_date r) df) of
            Inl e \<Rightarrow> Inl e
          | Inr tenures \<Rightarrow>
              Inr (filter (\<lambda>r. between 0 10 (nps_score r))
                    (filter (\<lambda>r. between 0 10 (satisfaction_score r))
                       (map add_customer_columns (zip df (zip ages tenures)))))))"

section \<open>etl\_processes.py: the loads\<close>

text \<open>
  A row of a staging table: the inserted columns and \<open>last_updated\<close>, which no \<open>INSERT\<close>
  names. A table maps the conflict key to its row.
\<close>

record 'r staged =
  row :: 'r
  last_updated :: "int option"

text \<open>
  \<open>INSERT ... ON CONFLICT (key) DO UPDATE SET ...\<close>: a new key is inserted, an existing
  row is changed by the \<open>SET\<close> clause, which sees the stored row and the proposed one
  (\<open>EXCLUDED\<close>).
\<close>

definition insert_on_conflict ::
  "('r \<Rightarrow> 'k) \<Rightarrow> ('r \<Rightarrow> 's) \<Rightarrow> ('s \<Rightarrow> 'r \<Rightarrow> 's) \<Rightarrow> ('k \<rightharpoonup> 's) \<Rightarrow> 'r \<Rightarrow> ('k \<rightharpoonup> 's)" where
  "insert_on_conflict key ins do_update tbl r =
     (case tbl (key r) of
        None \<Rightarrow> tbl(key r \<mapsto> ins r)
      | Some old \<Rightarrow> tbl(key r \<mapsto> do_update old r))"

text \<open>The effect of one statement on the cell of its key.\<close>

definition cell_step :: "('r \<Rightarrow> 's) \<Rightarrow> ('s \<Rightarrow> 'r \<Rightarrow> 's) \<Rightarrow> 's option \<Rightarrow> 'r \<Rightarrow> 's option" where
  "cell_step ins do_update cell r =
     Some (case cell of None \<Rightarrow> ins r | Some old \<Rightarrow> do_update old r)"

text \<open>
  What the database does during one call of a load: whether \<open>connect\<close> succeeds, which
  error (a violated constraint, a lost connection) \<open>cursor.execute\<close> raises on a row in
  the state the transaction has reached, whether \<open>commit\<close> raises, and the value
  \<open>last_updated\<close> takes in an inserted row (the column's default). The schema of the
  staging tables is not part of the repository.
\<close>

record ('k, 's, 'r) session =
  connects :: bool
  violation :: "('k \<rightharpoonup> 's) \<Rightarrow> 'r \<Rightarrow> error option"
  commit_failure :: "error option"
  stamp_default :: "int option"

text \<open>
  psycopg2 opens a transaction with the first statement: the statements work on a copy
  that \<open>commit\<close> makes the stored table and \<open>rollback\<close> discards.
\<close>

record ('k, 's) connection =
  committed :: "'k \<rightharpoonup> 's"
  working :: "'k \<rightharpoonup> 's"

definition commit :: "('k, 's) connection \<Rightarrow> ('k, 's) connection" where
  "commit conn = conn\<lparr>committed := working conn\<rparr>"

definition rollback :: "('k, 's) connection \<Rightarrow> ('k, 's) connection" where
  "rollback conn = conn\<lparr>working := committed conn\<rparr>"

text \<open>The loop \<open>for _, row in df.iterrows(): cursor.execute(...)\<close>, up to the first error.\<close>

fun iterrows ::
  "(('k \<rightharpoonup> 's) \<Rightarrow> 'r \<Rightarrow> error option) \<Rightarrow> (('k \<rightharpoonup> 's) \<Rightarrow> 'r \<Rightarrow> ('k \<rightharpoonup> 's))
     \<Rightarrow> ('k, 's) connection \<Rightarrow> 'r list \<Rightarrow> error option \<times> ('k, 's) connection" where
  "iterrows viol stmt conn [] = (None, conn)"
| "iterrows viol stmt conn (r # rs) =
     (case viol (working conn) r of
        Some e \<Rightarrow> (Some e, conn)
      | None \<Rightarrow> iterrows viol stmt (conn\<lparr>working := stmt (working conn) r\<rparr>) rs)"

text \<open>
  The body shared by \<open>load_transactions\<close> and \<open>load_customers\<close>:
  \<^verbatim>\<open>try: conn = connect(); cursor = conn.cursor(); for ...: execute; conn.commit()
  except Exception: log; conn.rollback(); raise
  finally: cursor.close(); conn.close()\<close>
  When \<open>connect\<close> raises, \<open>conn\<close> is unbound in the handler and \<open>UnboundLocalError\<close> leaves
  the method. The result is the outcome and the stored table.
\<close>

definition load ::
  "(('k \<rightharpoonup> 's) \<Rightarrow> 'r \<Rightarrow> ('k \<rightharpoonup> 's)) \<Rightarrow> ('k, 's, 'r) session \<Rightarrow> ('k \<rightharpoonup> 's) \<Rightarrow> 'r list
     \<Rightarrow> (error + unit) \<times> ('k \<rightharpoonup> 's)" where
  "load stmt sess tbl df =
     (if \<not> connects sess then (Inl UnboundLocalError, tbl)
      else case iterrows (violation sess) stmt \<lparr>committed = tbl, working = tbl\<rparr> df of
        (Some e, conn) \<Rightarrow> (Inl e, committed (rollback conn))
      | (None, conn) \<Rightarrow>
          (case commit_failure sess of
             Some e \<Rightarrow> (Inl e, committed (rollback conn))
           | None \<Rightarrow> (Inr (), committed (commit conn))))"

text \<open>
  \<open>staging.transactions\<close>: \<open>ON CONFLICT (transaction_id) DO UPDATE SET status =
  EXCLUDED.status, last_updated = CURRENT_TIMESTAMP\<close>.
\<close>

definition transactions_set :: "transformed_transaction \<Rightarrow> transformed_transaction \<Rightarrow> transformed_transaction" where
  "transactions_set old excluded = old\<lparr>transaction.status := transaction.status excluded\<rparr>"

definition upsert_transaction ::
  "int option \<Rightarrow> int \<Rightarrow> (int \<rightharpoonup> transformed_transaction staged) \<Rightarrow> transformed_transaction
     \<Rightarrow> (int \<rightharpoonup> transformed_transaction staged)" where
  "upsert_transaction dflt now =
     insert_on_conflict transaction_id
       (\<lambda>r. \<lparr>row = r, last_updated = dflt\<rparr>)
       (\<lambda>old excluded. \<lparr>row = transactions_set (row old) excluded, last_updated = Some now\<rparr>)"

definition load_transactions ::
  "(int, transformed_transaction staged, transformed_transaction) session \<Rightarrow> int
     \<Rightarrow> (int \<rightharpoonup> transformed_transaction staged) \<Rightarrow> transformed_transaction list
     \<Rightarrow> (error + unit) \<times> (int \<rightharpoonup> transformed_transaction staged)" where
  "load_transactions sess now tbl df = load (upsert_transaction (stamp_default sess) now) sess tbl df"

text \<open>
  \<open>staging.customers\<close>: \<open>ON CONFLICT (customer_id) DO UPDATE SET last_interaction_date,
  satisfaction_score, nps_score, status\<close> from \<open>EXCLUDED\<close>, \<open>last_updated =
  CURRENT_TIMESTAMP\<close>.
\<close>

definition customers_set :: "transformed_customer \<Rightarrow> transformed_customer \<Rightarrow> transformed_customer" where
  "customers_set old excluded =
     old\<lparr>last_interaction_date := last_interaction_date excluded,
         satisfaction_score := satisfaction_score excluded,
         nps_score := nps_score excluded,
         status := status excluded\<rparr>"

definition upsert_customer ::
  "int option \<Rightarrow> int \<Rightarrow> (int \<rightharpoonup> transformed_customer staged) \<Rightarrow> transformed_customer
     \<Rightarrow> (int \<rightharpoonup> transformed_customer staged)" where
  "upsert_customer dflt now =
     insert_on_conflict customer_id
       (\<lambda>r. \<lparr>row = r, last_updated = dflt\<rparr>)
       (\<lambda>old excluded. \<lparr>row = customers_set (row old) excluded, last_updated = Some now\<rparr>)"

definition load_customers ::
  "(int, transformed_customer staged, transformed_customer) session \<Rightarrow> int
     \<Rightarrow> (int \<rightharpoonup> transformed_customer staged) \<Rightarrow> transformed_customer list
     \<Rightarrow> (error + unit) \<times> (int \<rightharpoonup> transformed_customer staged)" where
  "load_customers sess now tbl df = load (upsert_customer (stamp_default sess) now) sess tbl df"

section \<open>etl\_processes.py: the daily run\<close>

text \<open>
  The source systems are generated data: \<open>extract_transactions\<close> appends 1000 rows drawn
  from \<open>Faker\<close>, \<open>extract_customers\<close> 500, and both re-raise what a draw raises. The
  generator is a parameter that gives the row of each round of the loop or raises.
\<close>

fun collect :: "(nat \<Rightarrow> error + 'r) \<Rightarrow> nat list \<Rightarrow> 'r list \<Rightarrow> error + 'r list" where
  "collect fake [] acc = Inr acc"
| "collect fake (i # rounds) acc =
     (case fake i of
        Inl e \<Rightarrow> Inl e
      | Inr r \<Rightarrow> collect fake rounds (acc @ [r]))"

definition extract_transactions ::
  "(int \<Rightarrow> int \<Rightarrow> nat \<Rightarrow> error + transaction) \<Rightarrow> int \<Rightarrow> int \<Rightarrow> error + transaction list" where
  "extract_transactions fake start_date end_date = collect (fake start_date end_date) [0..<1000] []"

definition extract_customers :: "(nat \<Rightarrow> error + customer) \<Rightarrow> error + customer list" where
  "extract_customers fake = collect fake [0..<500] []"

record etl_env =
  fake_transaction :: "int \<Rightarrow> int \<Rightarrow> nat \<Rightarrow> error + transaction"
  fake_customer :: "nat \<Rightarrow> error + customer"
  to_time :: "string \<Rightarrow> error + string"
  transactions_session :: "(int, transformed_transaction staged, transformed_transaction) session"
  customers_session :: "(int, transformed_customer staged, transformed_customer) session"

record staging =
  transactions :: "int \<rightharpoonup> transformed_transaction staged"
  customers :: "int \<rightharpoonup> transformed_customer staged"

text \<open>The calls a run makes, in order, are recorded beside its outcome.\<close>

datatype entity = Transactions | Customers

datatype stage = Extract entity | Transform entity | Load entity

text \<open>
  \<open>run_daily_etl\<close> is one \<open>try\<close> block around six calls, and its handler logs and
  re-raises. The first three calls are the transaction part, the last three the customer
  part; the clock is read once.
\<close>

definition transactions_pipeline ::
  "etl_env \<Rightarrow> int \<Rightarrow> staging \<Rightarrow> (error + unit) \<times> staging \<times> stage list" where
  "transactions_pipeline env now db =
     (case extract_transactions (fake_transaction env) (now - 86400) now of
        Inl e \<Rightarrow> (Inl e, db, [Extract Transactions])
      | Inr transactions_df \<Rightarrow>
         (case transform_transactions (to_time env) transactions_df of
            Inl e \<Rightarrow> (Inl e, db, [Extract Transactions, Transform Transactions])
          | Inr transformed_transactions \<Rightarrow>
             (case load_transactions (transactions_session env) now (transactions db)
                     transformed_transactions of
                (res, tbl) \<Rightarrow>
                  (res, db\<lparr>transactions := tbl\<rparr>,
                   [Extract Transactions, Transform Transactions, Load Transactions]))))"

definition customers_pipeline ::
  "etl_env \<Rightarrow> int \<Rightarrow> staging \<Rightarrow> (error + unit) \<times> staging \<times> stage list" where
  "customers_pipeline env now db =
     (case extract_customers (fake_customer env) of
        Inl e \<Rightarrow> (Inl e, db, [Extract Customers])
      | Inr customers_df \<Rightarrow>
         (case transform_customers now customers_df of
            Inl e \<Rightarrow> (Inl e, db, [Extract Customers, Transform Customers])
          | Inr transformed_customers \<Rightarrow>
             (case load_customers (customers_session env) now (customers db)
                     transformed_customers of
                (res, tbl) \<Rightarrow>
                  (res, db\<lparr>customers := tbl\<rparr>,
                   [Extract Customers, Transform Customers, Load Customers]))))"

definition run_daily_etl ::
  "etl_env \<Rightarrow> int \<Rightarrow> staging \<Rightarrow> (error + unit) \<times> staging \<times> stage list" where
  "run_daily_etl env now db =
     (case transactions_pipeline env now db of
        (Inl e, db1, calls) \<Rightarrow> (Inl e, db1, calls)
      | (Inr u, db1, calls) \<Rightarrow>
         (case customers_pipeline env now db1 of
            (res, db2, calls2) \<Rightarrow> (res, db2, calls @ calls2)))"

text \<open>Rows, sessions and environments for the examples.\<close>

definition open_session :: "('k, 's, 'r) session" where
  "open_session =
     \<lparr>connects = True, violation = (\<lambda>tbl r. None), commit_failure = None,
      stamp_default = None\<rparr>"

definition payment :: transformed_transaction where
  "payment =
     \<lparr>transaction_id = 41, transaction_date = 86400, transaction_time = ''10:15:00'',
      branch_id = 3, transaction.customer_id = 7, product_id = 2, amount = 25,
      transaction_type_id = 1, employee_id = 9, channel_id = 4,
      transaction.status = ''PENDING'', is_weekend = False, is_holiday = False\<rparr>"

definition alice :: transformed_customer where
  "alice =
     \<lparr>customer_id = 7, first_name = ''Alice'', last_name = ''Moreau'', date_of_birth = 0,
      address = ''1 High Street'', city = ''Leeds'', state = ''Yorkshire'',
      zip_code = ''LS1'', email = ''alice@example.org'', phone = ''555-0100'',
      customer_segment_id = 2, acquisition_date = 86400, last_interaction_date = 172800,
      satisfaction_score = 8, nps_score = 9, status = ''ACTIVE'',
      age = 30, customer_tenure_days = 400\<rparr>"

text \<open>
  The same transaction and the same customer as they were stored by an earlier run, with
  other values in columns of both kinds; and as a later batch brings them.
\<close>

definition old_payment :: transformed_transaction where
  "old_payment = payment\<lparr>branch_id := 8, amount := 99, transaction.status := ''FAILED''\<rparr>"

definition settled_payment :: transformed_transaction where
  "settled_payment = payment\<lparr>amount := 30, transaction.status := ''COMPLETED''\<rparr>"

definition old_alice :: transformed_customer where
  "old_alice = alice\<lparr>first_name := ''Alicia'', city := ''York'', satisfaction_score := 3,
                    status := ''PENDING''\<rparr>"

definition later_alice :: transformed_customer where
  "later_alice = alice\<lparr>city := ''Hull'', last_interaction_date := 259200,
                      satisfaction_score := 5, nps_score := 6, status := ''INACTIVE''\<rparr>"

text \<open>The staging tables as that earlier run has left them.\<close>

definition stored_payments :: "int \<rightharpoonup> transformed_transaction staged" where
  "stored_payments = [41 \<mapsto> \<lparr>row = old_payment, last_updated = Some 50\<rparr>]"

definition stored_customers :: "int \<rightharpoonup> transformed_customer staged" where
  "stored_customers = [7 \<mapsto> \<lparr>row = old_alice, last_updated = Some 50\<rparr>]"

definition big_payment :: transformed_transaction where
  "big_payment = payment\<lparr>transaction_id := 42, amount := 5000\<rparr>"




definition rejecting_session :: "(int, 's, transformed_transaction) session" where
  "rejecting_session =
     \<lparr>connects = True,
      violation = (\<lambda>tbl r. if amount r > 1000 then Some DataError else None),
      commit_failure = None, stamp_default = None\<rparr>"










section \<open>Properties of the floats\<close>

lemma round_even_bounds: "\<lfloor>r\<rfloor> \<le> round_even r \<and> round_even r \<le> \<lfloor>r\<rfloor> + 1"
  by (simp add: round_even_def Let_def)

lemma round_even_of_int [simp]: "round_even (of_int n) = n"
  by (simp add: round_even_def)

lemma round_even_mono: assumes "r \<le> s" shows "round_even r \<le> round_even s"
proof (cases "\<lfloor>r\<rfloor> = \<lfloor>s\<rfloor>")
  case True
  with assms show ?thesis by (auto simp: round_even_def Let_def)
next
  case False
  with assms have "\<lfloor>r\<rfloor> < \<lfloor>s\<rfloor>" by (simp add: floor_mono order.strict_iff_order)
  with round_even_bounds [of r] round_even_bounds [of s] show ?thesis by linarith
qed

lemma floor_log2_eq:
  assumes "2 powi e \<le> x" and "x < 2 powi (e + 1)"
  shows "\<lfloor>log 2 x\<rfloor> = e"
proof -
  have p: "0 < x" using assms(1) zero_less_power_int [of "2::real" e] by linarith
  have "(2::real) powr real_of_int e = 2 powi e"
    by (simp add: powr_real_of_int')
  moreover have "(2::real) powr (real_of_int e + 1) = 2 powi (e + 1)"
    using powr_real_of_int' [of "2::real" "e + 1"] by simp
  ultimately show ?thesis using assms floor_log_eq_powr_iff [of x 2 e] p by simp
qed

lemma floor_log2_log:
  assumes "0 < x"
  shows "floor_log2 x = \<lfloor>log 2 x\<rfloor>"
proof (cases "1 \<le> x")
  case True
  let ?n = "nat \<lfloor>x\<rfloor>" and ?w = "floorlog 2 (nat \<lfloor>x\<rfloor>)"
  from True have n: "0 < ?n" by simp
  from floorlog_bounds [OF n, of 2] have lo: "2 ^ (?w - 1) \<le> ?n" and hi: "?n < 2 ^ ?w"
    by simp_all
  have w: "0 < ?w"
  proof (rule ccontr)
    assume "\<not> 0 < ?w"
    then have "floorlog 2 ?n = 0" by simp
    with n show False by (simp add: floorlog_eq_zero_iff)
  qed
  have fl: "real ?n = of_int \<lfloor>x\<rfloor>" using True by simp
  have p1: "(2::real) powi (int ?w - 1) = 2 ^ (?w - 1)"
    using w by (simp add: power_int_def nat_diff_distrib')
  have p2: "(2::real) powi (int ?w - 1 + 1) = 2 ^ ?w"
    by (simp add: power_int_def)
  from lo have "(2::real) ^ (?w - 1) \<le> real ?n"
    by (metis of_nat_le_iff of_nat_numeral of_nat_power)
  also have "\<dots> \<le> x" unfolding fl by simp
  finally have a: "2 powi (int ?w - 1) \<le> x" unfolding p1 .
  from hi have "Suc ?n \<le> 2 ^ ?w" by (rule Suc_leI)
  then have "real (Suc ?n) \<le> 2 ^ ?w"
    by (metis of_nat_le_iff of_nat_numeral of_nat_power)
  moreover have "real (Suc ?n) = of_int \<lfloor>x\<rfloor> + 1" using fl by (simp only: of_nat_Suc)
  moreover have "x < of_int \<lfloor>x\<rfloor> + 1" by linarith
  ultimately have b: "x < 2 powi (int ?w - 1 + 1)" unfolding p2 by linarith
  from floor_log2_eq [OF a b] True show ?thesis by (simp add: floor_log2_def)
next
  case False
  let ?y = "1 / x"
  let ?n = "nat (\<lceil>?y\<rceil> - 1)" and ?w = "floorlog 2 (nat (\<lceil>1 / x\<rceil> - 1))"
  from False assms have y: "1 < ?y" by simp
  then have m: "2 \<le> \<lceil>?y\<rceil>" by linarith
  then have n: "0 < ?n" by simp
  from floorlog_bounds [OF n, of 2] have lo: "2 ^ (?w - 1) \<le> ?n" and hi: "?n < 2 ^ ?w"
    by simp_all
  have w: "0 < ?w"
  proof (rule ccontr)
    assume "\<not> 0 < ?w"
    then have "floorlog 2 ?n = 0" by simp
    with n show False by (simp add: floorlog_eq_zero_iff)
  qed
  from m have "0 \<le> \<lceil>?y\<rceil> - 1" by linarith
  then have "int ?n = \<lceil>?y\<rceil> - 1" by (rule nat_0_le)
  then have "real_of_int (int ?n) = real_of_int (\<lceil>?y\<rceil> - 1)" by (rule arg_cong)
  then have rn: "real ?n = of_int \<lceil>?y\<rceil> - 1" by (simp only: of_int_of_nat_eq of_int_diff of_int_1)
  have p1: "(2::real) powi (- int ?w) = 1 / 2 ^ ?w"
    by (simp add: power_int_def field_simps)
  have p2: "(2::real) powi (- int ?w + 1) = 1 / 2 ^ (?w - 1)"
  proof -
    from w obtain k where k: "?w = Suc k" by (cases ?w) simp_all
    have "- int (Suc k) + 1 = - int k" by simp
    then have "(2::real) powi (- int (Suc k) + 1) = 2 powi (- int k)" by (rule arg_cong)
    also have "\<dots> = 1 / 2 ^ k" by (simp add: power_int_minus field_simps)
    finally show ?thesis unfolding k by simp
  qed
  from hi have "Suc ?n \<le> 2 ^ ?w" by (rule Suc_leI)
  then have "real (Suc ?n) \<le> 2 ^ ?w"
    by (metis of_nat_le_iff of_nat_numeral of_nat_power)
  moreover have "real (Suc ?n) = of_int \<lceil>?y\<rceil>" using rn by (simp only: of_nat_Suc) simp?
  ultimately have "of_int \<lceil>?y\<rceil> \<le> (2::real) ^ ?w" by simp
  then have "?y \<le> 2 ^ ?w" by linarith
  then have a: "2 powi (- int ?w) \<le> x" unfolding p1 using assms by (simp add: field_simps)
  from lo have "(2::real) ^ (?w - 1) \<le> real ?n"
    by (metis of_nat_le_iff of_nat_numeral of_nat_power)
  then have "(2::real) ^ (?w - 1) < ?y" unfolding rn by linarith
  then have b: "x < 2 powi (- int ?w + 1)" unfolding p2 using assms by (simp add: field_simps)
  from floor_log2_eq [OF a b] False show ?thesis by (simp add: floor_log2_def)
qed

lemma ulp_exponent_pos:
  "0 < x \<Longrightarrow> ulp_exponent x = max (\<lfloor>log 2 x\<rfloor> - 52) (- 1074)"
  by (simp add: ulp_exponent_def floor_log2_log)

lemma floor_log2_bounds:
  assumes "0 < x"
  shows "2 powi \<lfloor>log 2 x\<rfloor> \<le> x \<and> x < 2 powi (\<lfloor>log 2 x\<rfloor> + 1)"
proof -
  have "(2::real) powr real_of_int \<lfloor>log 2 x\<rfloor> = 2 powi \<lfloor>log 2 x\<rfloor>"
    by (simp add: powr_real_of_int')
  moreover have "(2::real) powr (real_of_int \<lfloor>log 2 x\<rfloor> + 1) = 2 powi (\<lfloor>log 2 x\<rfloor> + 1)"
    using powr_real_of_int' [of "2::real" "\<lfloor>log 2 x\<rfloor> + 1"] by simp
  ultimately show ?thesis using floor_log_eq_powr_iff [of x 2 "\<lfloor>log 2 x\<rfloor>"] assms by simp
qed

lemma round_double_pos:
  "0 < x \<Longrightarrow> round_double x
     = of_int (round_even (x / 2 powi ulp_exponent x)) * 2 powi ulp_exponent x"
  by (simp add: round_double_def)

lemma round_double_zero [simp]: "round_double 0 = 0"
  by (simp add: round_double_def)

lemma round_double_nonneg: assumes "0 \<le> x" shows "0 \<le> round_double x"
proof (cases "x = 0")
  case True then show ?thesis by simp
next
  case False
  with assms have p: "0 < x" by simp
  have "0 \<le> x / 2 powi ulp_exponent x" using p by simp
  then have "0 \<le> \<lfloor>x / 2 powi ulp_exponent x\<rfloor>" by simp
  with round_even_bounds [of "x / 2 powi ulp_exponent x"]
  have "0 \<le> round_even (x / 2 powi ulp_exponent x)" by linarith
  with p show ?thesis by (simp add: round_double_pos)
qed

lemma grid_product:
  assumes "k' \<le> k"
  shows "(of_int (n * 2 ^ nat (k - k')) :: real) * 2 powi k' = of_int n * 2 powi k"
proof -
  have "(2::real) powi k = 2 powi (k - k') * 2 powi k'"
    using power_int_add [of "2::real" "k - k'" k'] by simp
  moreover have "(2::real) powi (k - k') = 2 ^ nat (k - k')"
    using assms by (simp add: power_int_nonneg_exp)
  ultimately have "(2::real) powi k = 2 ^ nat (k - k') * 2 powi k'" by simp
  then show ?thesis by (simp add: mult.assoc)
qed

lemma scaled_le_iff:
  assumes "0 < (u::real)"
  shows "(x / u \<le> of_int m) = (x \<le> of_int m * u)" and "(of_int m \<le> x / u) = (of_int m * u \<le> x)"
  using assms by (simp_all add: field_simps)

lemma round_double_le_grid:
  assumes "0 < x" and "ulp_exponent x \<le> k" and "x \<le> of_int n * 2 powi k"
  shows "round_double x \<le> of_int n * 2 powi k"
proof -
  let ?u = "(2::real) powi ulp_exponent x"
  let ?m = "n * 2 ^ nat (k - ulp_exponent x)"
  have u: "0 < ?u" by simp
  have g: "of_int ?m * ?u = of_int n * 2 powi k" by (rule grid_product [OF assms(2)])
  from assms(3) have "x \<le> of_int ?m * ?u" by (simp only: g)
  then have "x / ?u \<le> of_int ?m" by (simp only: scaled_le_iff(1) [OF u])
  then have "round_even (x / ?u) \<le> round_even (of_int ?m)" by (rule round_even_mono)
  then have "round_even (x / ?u) \<le> ?m" by (simp only: round_even_of_int)
  then have "(of_int (round_even (x / ?u)) :: real) \<le> of_int ?m" by linarith
  then have "of_int (round_even (x / ?u)) * ?u \<le> of_int ?m * ?u"
    using u by (rule mult_right_mono [OF _ less_imp_le])
  then have "of_int (round_even (x / ?u)) * ?u \<le> of_int n * 2 powi k" by (simp only: g)
  with assms(1) show ?thesis by (simp only: round_double_pos)
qed

lemma round_double_ge_grid:
  assumes "0 < x" and "ulp_exponent x \<le> k" and "of_int n * 2 powi k \<le> x"
  shows "of_int n * 2 powi k \<le> round_double x"
proof -
  let ?u = "(2::real) powi ulp_exponent x"
  let ?m = "n * 2 ^ nat (k - ulp_exponent x)"
  have u: "0 < ?u" by simp
  have g: "of_int ?m * ?u = of_int n * 2 powi k" by (rule grid_product [OF assms(2)])
  from assms(3) have "of_int ?m * ?u \<le> x" by (simp only: g)
  then have "of_int ?m \<le> x / ?u" by (simp only: scaled_le_iff(2) [OF u])
  then have "round_even (of_int ?m) \<le> round_even (x / ?u)" by (rule round_even_mono)
  then have "?m \<le> round_even (x / ?u)" by (simp only: round_even_of_int)
  then have "(of_int ?m :: real) \<le> of_int (round_even (x / ?u))" by linarith
  then have "of_int ?m * ?u \<le> of_int (round_even (x / ?u)) * ?u"
    using u by (rule mult_right_mono [OF _ less_imp_le])
  then have "of_int n * 2 powi k \<le> of_int (round_even (x / ?u)) * ?u" by (simp only: g)
  with assms(1) show ?thesis by (simp only: round_double_pos)
qed

lemma ulp_exponent_mono:
  assumes "0 < x" and "x \<le> y"
  shows "ulp_exponent x \<le> ulp_exponent y"
proof -
  from assms have "log 2 x \<le> log 2 y" by simp
  then have "\<lfloor>log 2 x\<rfloor> \<le> \<lfloor>log 2 y\<rfloor>" by (rule floor_mono)
  with assms show ?thesis by (simp add: ulp_exponent_pos)
qed

lemma round_double_mono:
  assumes "0 \<le> x" and "x \<le> y"
  shows "round_double x \<le> round_double y"
proof (cases "x = 0")
  case True
  with assms round_double_nonneg [of y] show ?thesis by simp
next
  case False
  with assms have px: "0 < x" and py: "0 < y" by simp_all
  from ulp_exponent_mono [OF px assms(2)] have le: "ulp_exponent x \<le> ulp_exponent y" .
  show ?thesis
  proof (cases "ulp_exponent x = ulp_exponent y")
    case True
    let ?u = "(2::real) powi ulp_exponent y"
    have "x / ?u \<le> y / ?u" using assms(2) by (simp add: divide_right_mono)
    then have "round_even (x / ?u) \<le> round_even (y / ?u)" by (rule round_even_mono)
    then have "(of_int (round_even (x / ?u)) :: real) \<le> of_int (round_even (y / ?u))" by linarith
    then have "of_int (round_even (x / ?u)) * ?u \<le> of_int (round_even (y / ?u)) * ?u"
      by (simp add: mult_right_mono)
    with px py True show ?thesis by (simp add: round_double_pos)
  next
    case False
    with le have lt: "ulp_exponent x < ulp_exponent y" by simp
    let ?ex = "\<lfloor>log 2 x\<rfloor>" and ?ey = "\<lfloor>log 2 y\<rfloor>"
    from lt px py have ky: "ulp_exponent y = ?ey - 52" and exy: "?ex < ?ey"
      by (auto simp: ulp_exponent_pos max_def split: if_splits)
    let ?B = "of_int (2 ^ 52) * (2::real) powi ulp_exponent y"
    have B: "?B = 2 powi ?ey"
      using power_int_add [of "2::real" 52 "?ey - 52"] ky by simp
    from floor_log2_bounds [OF px] have "x < 2 powi (?ex + 1)" by simp
    also have "\<dots> \<le> 2 powi ?ey" using exy by (intro power_int_increasing) simp_all
    finally have xB: "x \<le> ?B" using B by simp
    from floor_log2_bounds [OF py] B have By: "?B \<le> y" by simp
    from round_double_le_grid [OF px _ xB] lt have "round_double x \<le> ?B" by simp
    moreover from round_double_ge_grid [OF py _ By] have "?B \<le> round_double y" by simp
    ultimately show ?thesis by linarith
  qed
qed

lemma round_double_normal:
  assumes "2 powi e \<le> x" and "x < 2 powi (e + 1)" and "- 1022 \<le> e"
  shows "round_double x = of_int (round_even (x / 2 powi (e - 52))) * 2 powi (e - 52)"
proof -
  have p: "0 < x" using assms(1) zero_less_power_int [of "2::real" e] by linarith
  from floor_log2_eq [OF assms(1,2)] p assms(3) have "ulp_exponent x = e - 52"
    by (simp add: ulp_exponent_pos)
  with p show ?thesis by (simp add: round_double_pos)
qed





lemma c98: "round_double (98 / 100) = 8827055269646172 / 2 ^ 53"
  using round_double_normal [of "-1" "98/100"]
  by (simp add: round_even_def Let_def)

lemma c98_100: "round_double (8827055269646172 / 2 ^ 53 * 100) = 98"
  using round_double_normal [of 6 "8827055269646172 / 2 ^ 53 * 100"]
  by (simp add: round_even_def Let_def)

lemma p98_100: "round_double (8827055269646171 / 2 ^ 53 * 100) < 98"
  using round_double_normal [of 6 "8827055269646171 / 2 ^ 53 * 100"]
  by (simp add: round_even_def Let_def)

lemma p98: "round_double (8827055269646171 / 2 ^ 53) = 8827055269646171 / 2 ^ 53"
  using round_double_normal [of "-1" "8827055269646171 / 2 ^ 53"]
  by (simp add: round_even_def Let_def)

lemma round_double_one: "round_double 1 = 1"
  using round_double_normal [of 0 1] by (simp add: round_even_def Let_def)

lemma round_double_hundred: "round_double 100 = 100"
  using round_double_normal [of 6 100] by (simp add: round_even_def Let_def)

lemma p1: "round_double ((2 ^ 53 - 1) / 2 ^ 53) = (2 ^ 53 - 1) / 2 ^ 53"
  using round_double_normal [of "-1" "(2 ^ 53 - 1) / 2 ^ 53"]
  by (simp add: round_even_def Let_def)



lemma double_ge_98:
  assumes "0 \<le> g" and "0 < t" and "t \<le> 10 ^ 14"
  shows "(float_mul (round_double (real_of_int g / real_of_int t)) 100 \<ge> 98) = (real_of_int g / real_of_int t \<ge> 98 / 100)"
proof (cases "real_of_int g / real_of_int t \<ge> 98 / 100")
  case True
  let ?x = "real_of_int g / real_of_int t"
  have "(0::real) \<le> 98 / 100" by simp
  from round_double_mono [OF this True]
  have "8827055269646172 / 2 ^ 53 \<le> round_double ?x" unfolding c98 .
  then have "8827055269646172 / 2 ^ 53 * 100 \<le> round_double ?x * 100" by linarith
  moreover have "(0::real) \<le> 8827055269646172 / 2 ^ 53 * 100" by simp
  ultimately have "round_double (8827055269646172 / 2 ^ 53 * 100) \<le> round_double (round_double ?x * 100)"
    by (intro round_double_mono)
  then have "98 \<le> float_mul (round_double (real_of_int g / real_of_int t)) 100" unfolding c98_100 float_mul_def .
  with True show ?thesis by simp
next
  case False
  let ?x = "real_of_int g / real_of_int t"
  have x0: "0 \<le> ?x" using assms by simp
  have tp: "0 < real_of_int t" using assms(2) by simp
  from False have "?x < 98 / 100" by simp
  then have "real_of_int g < 98 / 100 * real_of_int t" using tp by (simp add: pos_divide_less_eq)
  then have "real_of_int (100 * g) < real_of_int (98 * t)" by simp
  then have "100 * g < 98 * t" by (simp only: of_int_less_iff)
  then have "50 * g + 1 \<le> 49 * t" by linarith
  with assms(3) have "g * 2 ^ 53 \<le> 8827055269646171 * t" by simp
  then have "real_of_int (g * 2 ^ 53) \<le> real_of_int (8827055269646171 * t)" by (simp only: of_int_le_iff)
  then have "real_of_int g * 2 ^ 53 \<le> 8827055269646171 * real_of_int t" by simp
  then have "?x \<le> 8827055269646171 / 2 ^ 53" using tp by (simp add: field_simps)
  from round_double_mono [OF x0 this]
  have "round_double ?x \<le> 8827055269646171 / 2 ^ 53" unfolding p98 .
  then have "round_double ?x * 100 \<le> 8827055269646171 / 2 ^ 53 * 100" by linarith
  moreover have "0 \<le> round_double ?x * 100" using round_double_nonneg [OF x0] by simp
  ultimately have "round_double (round_double ?x * 100) \<le> round_double (8827055269646171 / 2 ^ 53 * 100)"
    by (intro round_double_mono)
  with p98_100 have "float_mul (round_double (real_of_int g / real_of_int t)) 100 < 98" unfolding float_mul_def by linarith
  with False show ?thesis by simp
qed


section \<open>Properties of the checks\<close>

lemma true_div_ratio:
  assumes "0 \<le> g" and "g \<le> t" and "0 < t"
  shows "true_div g t = Inr (round_double (real_of_int g / real_of_int t))"
proof -
  let ?x = "real_of_int g / real_of_int t"
  have x0: "0 \<le> ?x" and x1: "?x \<le> 1" using assms by simp_all
  from round_double_mono [OF x0 x1] have "round_double ?x \<le> 1" by (simp add: round_double_one)
  moreover have "0 \<le> round_double ?x" by (rule round_double_nonneg [OF x0])
  moreover have "(1::real) < 2 ^ 1024" by simp
  ultimately have "\<not> \<bar>round_double ?x\<bar> \<ge> 2 ^ 1024" by linarith
  with assms(3) show ?thesis by (simp add: true_div_def Let_def)
qed

lemma percentage_ratio:
  assumes "0 \<le> g" and "g \<le> t" and "0 < t"
  shows "percentage g t = Inr (float_mul (round_double (real_of_int g / real_of_int t)) 100)"
  using assms true_div_ratio [OF assms] by (simp add: percentage_def)

lemma percentage_no_rows: "percentage g 0 = Inr 0"
  by (simp add: percentage_def)

lemma percentage_none: "0 < t \<Longrightarrow> percentage 0 t = Inr 0"
  using percentage_ratio [of 0 t] by (simp add: float_mul_def)

lemma percentage_all: "0 < t \<Longrightarrow> percentage t t = Inr 100"
  using percentage_ratio [of t t]
  by (simp add: float_mul_def round_double_one round_double_hundred)
















section \<open>Properties of the runner\<close>

lemma run_checks_append: "run_checks st now rs cs = rs @ returned st now cs"
  by (induction cs arbitrary: rs) (auto simp: returned_def split: sum.splits)

lemma sum_list_ones: "sum_list (map (\<lambda>r. Suc 0) xs) = length xs"
  by (induction xs) auto

text \<open>The clock only stamps a result.\<close>

lemma run_check_now:
  "run_check st now2 c = map_sum id (\<lambda>r. r\<lparr>check_date := now2\<rparr>) (run_check st now1 c)"
  by (cases c)
     (auto simp: check_completeness_def check_accuracy_def check_consistency_def
                 check_validity_def check_timeliness_def Let_def
           split: sum.splits list.splits)

lemma returned_now:
  "returned st now2 cs = map (\<lambda>r. r\<lparr>check_date := now2\<rparr>) (returned st now1 cs)"
proof (induction cs)
  case Nil
  show ?case by (simp add: returned_def)
next
  case (Cons c cs)
  then show ?case using run_check_now [of st now2 c now1]
    by (cases "run_check st now1 c") (auto simp: returned_def)
qed

lemma report_details_map:
  "report_details acc rs = Inr ds \<Longrightarrow> ds = acc @ map check_detail_of rs"
proof (induction rs arbitrary: acc)
  case Nil
  then show ?case by simp
next
  case (Cons r rs)
  from Cons.prems have "report_details (acc @ [check_detail_of r]) rs = Inr ds"
    by (simp split: sum.splits)
  from Cons.IH [OF this] show ?case by simp
qed

text \<open>The percentages of the example stores: ten of ten, and none of ten.\<close>

lemma percentage_ten: "percentage 10 10 = Inr 100"
  by (rule percentage_all) simp

lemma percentage_none_of_ten: "percentage 0 10 = Inr 0"
  by (rule percentage_none) simp

lemma float_detail_hundred: "float_detail 100 = DReal 100"
  by (simp add: float_detail_def)

lemma report_fields:
  assumes "generate_quality_report sink now rs = Inr report"
  shows "total_checks report = length rs"
    and "passed_checks report = length (filter passed rs)"
    and "failed_checks report = length (filter (\<lambda>r. \<not> passed r) rs)"
    and "check_details report = map check_detail_of rs"
    and "timestamp report = now"
  using assms report_details_map [of "[]" rs]
  by (auto simp: generate_quality_report_def Let_def sum_list_ones split: option.splits sum.splits)

lemma filter_date:
  "filter (\<lambda>r. P (passed r)) (map (\<lambda>r. r\<lparr>check_date := n\<rparr>) rs)
     = map (\<lambda>r. r\<lparr>check_date := n\<rparr>) (filter (\<lambda>r. P (passed r)) rs)"
  by (induction rs) auto

text \<open>
  Claim C4, as stated, fails: with the table \<open>core.branch\<close> missing, the eighth check of
  the registry raises, and the run's results and report hold the thirteen other checks and
  no entry for the one that raised.
\<close>

theorem errored_check_not_recorded:
  "run_check store_without_branch 0 (checks ! 7) = Inl ProgrammingError
   \<and> map column_name
        (results (snd (run_quality_checks store_without_branch writable 0 init_checker)))
     = [''email'', ''phone'', ''amount'', ''satisfaction_score'', ''nps_score'', ''status'',
        ''customer_id'', ''product_id'', ''amount'', ''date_of_birth'', ''transaction_date'',
        ''transaction_date'', ''last_interaction_date'']
   \<and> map_sum id total_checks
        (fst (run_quality_checks store_without_branch writable 0 init_checker)) = Inr 13"
  by (simp add: run_quality_checks_def checks_def init_checker_def store_without_branch_def
        answer_without_branch_def writable_def generate_quality_report_def
        check_completeness_def check_accuracy_def check_consistency_def
        check_validity_def check_timeliness_def Let_def item0_def
        percentage_ten percentage_none_of_ten error_rate_of_def)

text \<open>
  Claim C4, amended. A check that raises is caught and leaves no trace in the results or
  in the report: after a run the results are the earlier results followed by the results
  of the checks that returned, in registry order, so the checks after a raising one still
  run; and a report that is produced counts and details exactly these results.
\<close>

theorem errored_checks_omitted:
  assumes "run_quality_checks st sink now self = (outcome, self')"
  shows "results self' = results self @ returned st now checks
       \<and> (\<forall>report. outcome = Inr report \<longrightarrow>
             total_checks report = length (results self')
           \<and> check_details report = map check_detail_of (results self'))"
proof -
  from assms have s: "results self' = run_checks st now (results self) checks"
    and o: "outcome = generate_quality_report sink now (results self')"
    by (auto simp: run_quality_checks_def Let_def)
  from s have "results self' = results self @ returned st now checks"
    by (simp add: run_checks_append)
  moreover have "\<forall>report. outcome = Inr report \<longrightarrow>
             total_checks report = length (results self')
           \<and> check_details report = map check_detail_of (results self')"
    using o report_fields(1,4) by metis
  ultimately show ?thesis by blast
qed

theorem errored_checks_omitted_witness:
  "\<exists>report self'.
     run_quality_checks store_without_branch writable 0 init_checker = (Inr report, self')
     \<and> run_check store_without_branch 0
          (Consistency ''core.transaction'' ''branch_id'' ''core.branch'' ''branch_id'')
         = Inl ProgrammingError
     \<and> results self' = returned store_without_branch 0 checks
     \<and> total_checks report = 13 \<and> length (check_details report) = 13"
proof -
  let ?run = "run_quality_checks store_without_branch writable 0 init_checker"
  have "\<exists>report. fst ?run = Inr report \<and> length (results (snd ?run)) = 13"
    by (simp add: run_quality_checks_def checks_def init_checker_def
        store_without_branch_def answer_without_branch_def writable_def
        generate_quality_report_def check_completeness_def check_accuracy_def
        check_consistency_def check_validity_def check_timeliness_def Let_def item0_def
        percentage_ten percentage_none_of_ten error_rate_of_def)
  then obtain report where f: "fst ?run = Inr report"
    and n: "length (results (snd ?run)) = 13" by blast
  from f have a: "?run = (Inr report, snd ?run)" by (cases ?run) simp
  have e: "run_check store_without_branch 0
      (Consistency ''core.transaction'' ''branch_id'' ''core.branch'' ''branch_id'')
      = Inl ProgrammingError"
    by (simp add: check_consistency_def store_without_branch_def answer_without_branch_def)
  from errored_checks_omitted [OF a]
  have r: "results (snd ?run) = returned store_without_branch 0 checks"
    and t: "total_checks report = length (results (snd ?run))"
    and d: "check_details report = map check_detail_of (results (snd ?run))"
    by (simp_all add: init_checker_def)
  from d n have "length (check_details report) = 13" by simp
  with a e r t n show ?thesis by (intro exI [of _ report] exI [of _ "snd ?run"]) simp
qed

text \<open>
  Claim C9, as stated, fails: on a store where all fourteen checks of the registry return,
  the report of a second invocation on the same checker counts twenty-eight checks.
\<close>

theorem second_report_counts_both_runs:
  "map_sum id total_checks
     (fst (run_quality_checks healthy_store writable 1
        (snd (run_quality_checks healthy_store writable 0 init_checker)))) = Inr 28
   \<and> length checks = 14"
  by (simp add: run_quality_checks_def checks_def init_checker_def healthy_store_def
        answer_all_def writable_def generate_quality_report_def
        check_completeness_def check_accuracy_def check_consistency_def
        check_validity_def check_timeliness_def Let_def item0_def
        percentage_ten percentage_none_of_ten error_rate_of_def)

text \<open>
  Claim C9, amended. \<open>self.results\<close> is never reset, so a second invocation on the same
  checker appends to the results of the first: against an unchanged store the second run
  adds the same results again (with the new date), and the second report's
  \<open>total_checks\<close>, \<open>passed_checks\<close>, \<open>failed_checks\<close> and number of \<open>check_details\<close> are twice
  those of the first report. Only the first run of a fresh checker reports that run alone.
\<close>

theorem second_run_accumulates:
  assumes "run_quality_checks st sink now1 init_checker = (Inr rep1, self1)"
      and "run_quality_checks st sink now2 self1 = (Inr rep2, self2)"
  shows "results self2 = results self1 @ map (\<lambda>r. r\<lparr>check_date := now2\<rparr>) (results self1)
       \<and> total_checks rep2 = 2 * total_checks rep1
       \<and> passed_checks rep2 = 2 * passed_checks rep1
       \<and> failed_checks rep2 = 2 * failed_checks rep1
       \<and> length (check_details rep2) = 2 * length (check_details rep1)"
proof -
  let ?d = "\<lambda>r::QualityCheckResult. r\<lparr>check_date := now2\<rparr>"
  from assms(1) have s1: "results self1 = returned st now1 checks"
    and g1: "generate_quality_report sink now1 (results self1) = Inr rep1"
    by (auto simp: run_quality_checks_def Let_def init_checker_def run_checks_append)
  from assms(2) have s2: "results self2 = results self1 @ returned st now2 checks"
    and g2: "generate_quality_report sink now2 (results self2) = Inr rep2"
    by (auto simp: run_quality_checks_def Let_def run_checks_append)
  have r: "results self2 = results self1 @ map ?d (results self1)"
    using s1 s2 returned_now [of st now2 checks now1] by simp
  have p: "length (filter passed (map ?d (results self1)))
         = length (filter passed (results self1))"
    using filter_date [of "\<lambda>b. b" now2 "results self1"] by simp
  have f: "length (filter (\<lambda>r. \<not> passed r) (map ?d (results self1)))
         = length (filter (\<lambda>r. \<not> passed r) (results self1))"
    using filter_date [of "\<lambda>b. \<not> b" now2 "results self1"] by simp
  show ?thesis
    using r p f report_fields [OF g1] report_fields [OF g2] by simp
qed

theorem second_run_accumulates_witness:
  "\<exists>rep1 self1 rep2 self2.
     run_quality_checks healthy_store writable 0 init_checker = (Inr rep1, self1)
   \<and> run_quality_checks healthy_store writable 1 self1 = (Inr rep2, self2)
   \<and> total_checks rep1 = 14 \<and> total_checks rep2 = 28"
proof -
  let ?run1 = "run_quality_checks healthy_store writable 0 init_checker"
  let ?run2 = "run_quality_checks healthy_store writable 1 (snd ?run1)"
  have "\<exists>rep1. fst ?run1 = Inr rep1 \<and> total_checks rep1 = 14"
    by (simp add: run_quality_checks_def checks_def init_checker_def healthy_store_def
        answer_all_def writable_def generate_quality_report_def
        check_completeness_def check_accuracy_def check_consistency_def
        check_validity_def check_timeliness_def Let_def item0_def
        percentage_ten percentage_none_of_ten error_rate_of_def)
  then obtain rep1 where f1: "fst ?run1 = Inr rep1" and n: "total_checks rep1 = 14" by blast
  have "\<exists>rep2. fst ?run2 = Inr rep2"
    by (simp add: run_quality_checks_def checks_def init_checker_def healthy_store_def
        answer_all_def writable_def generate_quality_report_def
        check_completeness_def check_accuracy_def check_consistency_def
        check_validity_def check_timeliness_def Let_def item0_def
        percentage_ten percentage_none_of_ten error_rate_of_def)
  then obtain rep2 where f2: "fst ?run2 = Inr rep2" by blast
  from f1 have a: "?run1 = (Inr rep1, snd ?run1)" by (cases ?run1) simp
  from f2 have b: "?run2 = (Inr rep2, snd ?run2)" by (cases ?run2) simp
  from second_run_accumulates [OF a b] n a b show ?thesis by auto
qed

section \<open>Properties of the statements\<close>

lemma percentage_defined:
  assumes "0 \<le> g" and "g \<le> t"
  shows "\<exists>p. percentage g t = Inr p"
proof (cases "t = 0")
  case True
  then show ?thesis by (simp add: percentage_no_rows)
next
  case False
  with assms have "0 < t" by simp
  from percentage_ratio [OF assms this] show ?thesis by blast
qed

lemma orphans_of_row:
  "length (filter ref_is_null (left_join [t] rs)) = (if t = None \<or> t \<notin> set rs then 1 else 0)"
proof (cases t)
  case None
  then show ?thesis by (simp add: left_join_def sql_eq_def ref_is_null_def)
next
  case (Some x)
  have m: "filter (\<lambda>r. sql_eq (Some x) r = Some True) rs = filter (\<lambda>r. r = Some x) rs"
    by (rule filter_cong) (auto simp: sql_eq_def split: option.splits)
  show ?thesis
  proof (cases "Some x \<in> set rs")
    case True
    then have ne: "filter (\<lambda>r. r = Some x) rs \<noteq> []"
      by (simp add: filter_empty_conv)
    have "filter ref_is_null (map (\<lambda>r. (Some x, Some r)) (filter (\<lambda>r. r = Some x) rs)) = []"
      by (auto simp: filter_empty_conv ref_is_null_def)
    with True ne Some m show ?thesis by (simp add: left_join_def Let_def)
  next
    case False
    then have "filter (\<lambda>r. r = Some x) rs = []" by (auto simp: filter_empty_conv)
    with False Some m show ?thesis by (simp add: left_join_def Let_def ref_is_null_def)
  qed
qed

lemma left_join_Cons: "left_join (t # ts) rs = left_join [t] rs @ left_join ts rs"
  by (simp add: left_join_def)

lemma orphans_count:
  "length (filter ref_is_null (left_join ts rs))
     = length (filter (\<lambda>v. v = None \<or> v \<notin> set rs) ts)"
proof (induction ts)
  case Nil
  show ?case by (simp add: left_join_def)
next
  case (Cons t ts)
  let ?P = "\<lambda>v. v = None \<or> v \<notin> set rs"
  have "length (filter ref_is_null (left_join (t # ts) rs))
      = length (filter ref_is_null (left_join [t] rs))
        + length (filter ref_is_null (left_join ts rs))"
    unfolding left_join_Cons [of t ts rs] by simp
  also have "\<dots> = (if ?P t then 1 else 0) + length (filter ?P ts)"
    unfolding Cons.IH orphans_of_row [of t rs] ..
  also have "\<dots> = length (filter ?P (t # ts))"
    by (cases "?P t") simp_all
  finally show ?case .
qed

text \<open>
  Claim C8, as stated, fails: the only transaction has a \<open>NULL\<close> \<open>branch_id\<close>, the only
  branch has \<open>branch_id = 1\<close>, and the consistency check counts one orphan.
\<close>

theorem null_foreign_key_counted:
  "map_sum id error_count
      (check_consistency (pg_store int_ops null_branch_db) 0
         ''core.transaction'' ''branch_id'' ''core.branch'' ''branch_id'') = Inr 1
   \<and> column_cells null_branch_db ''core.transaction'' ''branch_id'' = Inr [None]
   \<and> column_cells null_branch_db ''core.branch'' ''branch_id'' = Inr [Some 1]"
  by (simp add: check_consistency_def pg_store_def item0_def Let_def null_branch_db_def
       column_cells_def left_join_def sql_eq_def ref_is_null_def percentage_none)

text \<open>
  Claim C8, amended. The left join keeps a row whose foreign key is \<open>NULL\<close>, with the
  reference side \<open>NULL\<close>, so \<open>WHERE r.rcol IS NULL\<close> selects it: \<open>error_count\<close> counts the
  rows whose foreign key is \<open>NULL\<close> together with the rows whose foreign key is present
  and equals no value of the reference column.
\<close>

theorem null_foreign_keys_are_orphans:
  assumes "column_cells db t c = Inr fk" and "column_cells db rt rc = Inr ref"
  shows "\<exists>res. check_consistency (pg_store ops db) now t c rt rc = Inr res
           \<and> error_count res = int (length (filter (\<lambda>v. v = None \<or> v \<notin> set ref) fk))"
proof -
  let ?n = "int (length (filter (\<lambda>v. v = None \<or> v \<notin> set ref) fk))"
  from assms(1) obtain rel where rel: "db t = Some rel" and len: "length fk = length (tuples rel)"
    by (auto simp: column_cells_def split: option.splits if_splits)
  have "?n \<le> int (length fk)" by simp
  then have "\<exists>p. percentage (int (length (tuples rel)) - ?n) (int (length (tuples rel))) = Inr p"
    unfolding len by (intro percentage_defined) simp_all
  then obtain p where "percentage (int (length (tuples rel)) - ?n) (int (length (tuples rel))) = Inr p"
    by blast
  with rel assms show ?thesis
    by (simp add: check_consistency_def pg_store_def item0_def Let_def orphans_count)
qed

theorem null_foreign_keys_are_orphans_witness:
  "\<exists>res. check_consistency (pg_store int_ops null_branch_db) 3
            ''core.transaction'' ''branch_id'' ''core.branch'' ''branch_id'' = Inr res
     \<and> error_count res = 1 \<and> total_count res = 1 \<and> \<not> passed res"
proof -
  have a: "column_cells null_branch_db ''core.transaction'' ''branch_id'' = Inr [None]"
    by (simp add: column_cells_def null_branch_db_def)
  have b: "column_cells null_branch_db ''core.branch'' ''branch_id'' = Inr [Some 1]"
    by (simp add: column_cells_def null_branch_db_def)
  from null_foreign_keys_are_orphans [OF a b, of int_ops 3]
  obtain res where r: "check_consistency (pg_store int_ops null_branch_db) 3
        ''core.transaction'' ''branch_id'' ''core.branch'' ''branch_id'' = Inr res"
    and e: "error_count res = 1" by auto
  have "total_count res = 1 \<and> \<not> passed res"
    using r
    by (auto simp: check_consistency_def pg_store_def item0_def Let_def null_branch_db_def
          column_cells_def left_join_def sql_eq_def ref_is_null_def percentage_none)
  with r e show ?thesis by auto
qed

text \<open>The specification's example: two of the four values lie in the range, 50\%.\<close>

lemma accuracy_example:
  "map_sum id (\<lambda>r. (passed r, error_count r, total_count r))
     (check_accuracy (pg_store int_ops scores_db) 0 ''core.customer'' ''satisfaction_score''
        [(''min'', Number 0), (''max'', Number 10)]) = Inr (False, 2, 4)"
proof -
  have "\<exists>p. percentage 2 4 = Inr p \<and> \<not> p \<ge> 98"
    using percentage_ratio [of 2 4] double_ge_98 [of 2 4] by simp
  then obtain p where "percentage 2 4 = Inr p" and "\<not> p \<ge> 98" by blast
  then show ?thesis
    by (simp add: check_accuracy_def pg_store_def Let_def scores_db_def column_cells_def
          count_where_def int_ops_def)
qed

text \<open>Unsupported keys add nothing to the conditions.\<close>

lemma validation_conditions_filter:
  "validation_conditions acc rules
     = validation_conditions acc
         (filter (\<lambda>(k, v). k = ''min'' \<or> k = ''max'' \<or> k = ''allowed_values'') rules)"
  by (induction acc rules rule: validation_conditions.induct) (auto split: rule_value.splits)

lemma check_accuracy_supported_only:
  assumes "check_accuracy st now t c rules = Inr res"
  shows "\<exists>res'. check_accuracy st now t c
            (filter (\<lambda>(k, v). k = ''min'' \<or> k = ''max'' \<or> k = ''allowed_values'') rules) = Inr res'
          \<and> passed res' = passed res \<and> error_count res' = error_count res
          \<and> total_count res' = total_count res"
  using assms validation_conditions_filter [of "[]" rules]
  by (auto simp: check_accuracy_def Let_def split: if_splits sum.splits list.splits)

lemma validation_conditions_unsupported:
  assumes "\<forall>(k, v) \<in> set rules. k \<noteq> ''min'' \<and> k \<noteq> ''max'' \<and> k \<noteq> ''allowed_values''"
  shows "validation_conditions acc rules = Inr acc"
  using assms by (induction rules arbitrary: acc) auto

text \<open>
  Claim C10 fails on the code where the mapping holds no supported key: the list of
  conditions stays empty, \<open>' AND '.join([])\<close> is the empty string, the statement reads
  \<open>CASE WHEN  THEN 1 END\<close>, and the database's syntax error leaves the check as an
  exception. No result is computed.
\<close>

theorem no_supported_rule_raises:
  assumes "\<forall>(k, v) \<in> set rules. k \<noteq> ''min'' \<and> k \<noteq> ''max'' \<and> k \<noteq> ''allowed_values''"
  shows "check_accuracy (pg_store ops db) now t c rules = Inl ProgrammingError"
  using validation_conditions_unsupported [OF assms, of "[]"]
  by (simp add: check_accuracy_def pg_store_def)

theorem no_supported_rule_raises_witness:
  "check_accuracy (pg_store int_ops scores_db) 0 ''core.customer'' ''satisfaction_score''
     [(''pattern'', Strings [''^[0-9]+$''])] = Inl ProgrammingError"
proof -
  have "\<forall>(k, v) \<in> set [(''pattern'', Strings [''^[0-9]+$''])].
          k \<noteq> ''min'' \<and> k \<noteq> ''max'' \<and> k \<noteq> ''allowed_values''"
    by simp
  from no_supported_rule_raises [OF this] show ?thesis .
qed

section \<open>Properties of the loads\<close>

lemma iterrows_committed:
  "iterrows viol stmt conn df = (r, conn') \<Longrightarrow> committed conn' = committed conn"
  by (induction df arbitrary: conn) (auto split: option.splits)

lemma iterrows_done:
  "iterrows viol stmt conn df = (None, conn') \<Longrightarrow> working conn' = foldl stmt (working conn) df"
  by (induction df arbitrary: conn) (auto split: option.splits)

lemma iterrows_violation:
  assumes "i < length df" and "viol (foldl stmt (working conn) (take i df)) (df ! i) \<noteq> None"
  shows "\<exists>j e. j \<le> i \<and> viol (foldl stmt (working conn) (take j df)) (df ! j) = Some e
           \<and> fst (iterrows viol stmt conn df) = Some e"
  using assms
proof (induction df arbitrary: conn i)
  case Nil
  then show ?case by simp
next
  case (Cons r rs)
  show ?case
  proof (cases "viol (working conn) r")
    case (Some e)
    then have "viol (foldl stmt (working conn) (take 0 (r # rs))) ((r # rs) ! 0) = Some e
        \<and> fst (iterrows viol stmt conn (r # rs)) = Some e"
      by simp
    then show ?thesis by blast
  next
    case None
    with Cons.prems obtain i' where i: "i = Suc i'" by (cases i) auto
    let ?c = "conn\<lparr>working := stmt (working conn) r\<rparr>"
    from Cons.prems i have "i' < length rs"
      and "viol (foldl stmt (working ?c) (take i' rs)) (rs ! i') \<noteq> None" by auto
    from Cons.IH [OF this] obtain j e where j: "j \<le> i'"
      and v: "viol (foldl stmt (working ?c) (take j rs)) (rs ! j) = Some e"
      and f: "fst (iterrows viol stmt ?c rs) = Some e" by blast
    from j i have "Suc j \<le> i" by simp
    moreover from v have
      "viol (foldl stmt (working conn) (take (Suc j) (r # rs))) ((r # rs) ! Suc j) = Some e"
      by simp
    moreover from f None have "fst (iterrows viol stmt conn (r # rs)) = Some e" by simp
    ultimately show ?thesis by blast
  qed
qed

lemma load_cases:
  assumes "load stmt sess tbl df = (res, tbl')"
  shows "(\<exists>e. res = Inl e \<and> tbl' = tbl) \<or> (res = Inr () \<and> tbl' = foldl stmt tbl df)"
proof (cases "connects sess")
  case False
  with assms show ?thesis by (auto simp: load_def)
next
  case True
  obtain r conn where it: "iterrows (violation sess) stmt \<lparr>committed = tbl, working = tbl\<rparr> df = (r, conn)"
    by (cases "iterrows (violation sess) stmt \<lparr>committed = tbl, working = tbl\<rparr> df") auto
  from iterrows_committed [OF it] have c: "committed conn = tbl" by simp
  show ?thesis
  proof (cases r)
    case (Some e)
    with assms True it c show ?thesis by (auto simp: load_def rollback_def)
  next
    case None
    with it iterrows_done [of "violation sess" stmt _ df conn] have "working conn = foldl stmt tbl df" by simp
    with assms True it c None show ?thesis
      by (auto simp: load_def rollback_def commit_def split: option.splits)
  qed
qed

lemma load_row_failure:
  assumes "connects sess" and "i < length df"
    and "violation sess (foldl stmt tbl (take i df)) (df ! i) \<noteq> None"
  shows "\<exists>j e. j \<le> i \<and> violation sess (foldl stmt tbl (take j df)) (df ! j) = Some e
           \<and> load stmt sess tbl df = (Inl e, tbl)"
proof -
  let ?c = "\<lparr>committed = tbl, working = tbl\<rparr>"
  from iterrows_violation [of i df "violation sess" stmt ?c] assms
  obtain j e where j: "j \<le> i"
    and v: "violation sess (foldl stmt tbl (take j df)) (df ! j) = Some e"
    and e: "fst (iterrows (violation sess) stmt ?c df) = Some e" by auto
  then obtain conn where it: "iterrows (violation sess) stmt ?c df = (Some e, conn)"
    by (cases "iterrows (violation sess) stmt ?c df") auto
  from iterrows_committed [OF it] have "committed conn = tbl" by simp
  with assms(1) it have "load stmt sess tbl df = (Inl e, tbl)"
    by (auto simp: load_def rollback_def)
  with j v show ?thesis by blast
qed

lemma insert_on_conflict_dom: "dom (insert_on_conflict key ins upd tbl r) = insert (key r) (dom tbl)"
  by (auto simp: insert_on_conflict_def split: option.splits)

lemma foldl_upsert_dom:
  "dom (foldl (insert_on_conflict key ins upd) tbl df) = dom tbl \<union> key ` set df"
  by (induction df arbitrary: tbl) (auto simp: insert_on_conflict_dom)

lemma foldl_upsert_at:
  "foldl (insert_on_conflict key ins upd) tbl df k
     = foldl (cell_step ins upd) (tbl k) (filter (\<lambda>r. key r = k) df)"
  by (induction df arbitrary: tbl) (auto simp: insert_on_conflict_def cell_step_def split: option.splits)

lemma cell_steps_Some:
  assumes "\<And>a r1 r2. S (S a r1) r2 = S a r2" and "rs \<noteq> []"
  shows "foldl (cell_step ins (\<lambda>old e. \<lparr>row = S (row old) e, last_updated = Some now\<rparr>)) (Some old) rs
       = Some \<lparr>row = S (row old) (last rs), last_updated = Some now\<rparr>"
  using assms(2)
proof (induction rs arbitrary: old)
  case Nil then show ?case by simp
next
  case (Cons r rs)
  show ?case
  proof (cases "rs = []")
    case True then show ?thesis by (simp add: cell_step_def)
  next
    case False
    from Cons.IH [OF False, of "\<lparr>row = S (row old) r, last_updated = Some now\<rparr>"] False assms(1)
    show ?thesis by (simp add: cell_step_def)
  qed
qed

lemma cell_steps_None:
  assumes "\<And>a r1 r2. S (S a r1) r2 = S a r2" and "\<And>r. S r r = r" and "rs \<noteq> []"
  shows "\<exists>lu. foldl (cell_step (\<lambda>r. \<lparr>row = r, last_updated = dflt\<rparr>)
            (\<lambda>old e. \<lparr>row = S (row old) e, last_updated = Some now\<rparr>)) None rs
       = Some \<lparr>row = S (hd rs) (last rs), last_updated = lu\<rparr>"
proof (cases rs)
  case Nil with assms(3) show ?thesis by simp
next
  case (Cons r rest)
  show ?thesis
  proof (cases "rest = []")
    case True with Cons assms(2) show ?thesis by (simp add: cell_step_def)
  next
    case False
    from cell_steps_Some [of S rest "(\<lambda>r. \<lparr>row = r, last_updated = dflt\<rparr>)" now "\<lparr>row = r, last_updated = dflt\<rparr>"] assms(1) False Cons
    show ?thesis by (simp add: cell_step_def)
  qed
qed

text \<open>
  Two loads, for any statement whose \<open>SET\<close> clause lets the last write win: the cell of a
  key of both batches holds the row that was there before the first load (or, for a new
  key, the first row of the first batch with that key), changed by the \<open>SET\<close> clause with
  the last row of the second batch with that key, and the stamp of the second load.
\<close>

lemma load_twice:
  assumes S1: "\<And>a r1 r2. S (S a r1) r2 = S a r2" and S2: "\<And>r. S r r = r"
    and U: "\<And>d n. U d n = insert_on_conflict key (\<lambda>r. \<lparr>row = r, last_updated = d\<rparr>)
              (\<lambda>old e. \<lparr>row = S (row old) e, last_updated = Some n\<rparr>)"
    and l1: "load (U d1 t1) sess1 s df1 = (Inr (), s1)"
    and l2: "load (U d2 t2) sess2 s1 df2 = (Inr (), s2)"
    and rs1: "rs1 = filter (\<lambda>r. key r = k) df1" "rs1 \<noteq> []"
    and rs2: "rs2 = filter (\<lambda>r. key r = k) df2" "rs2 \<noteq> []"
  shows "s2 k = Some \<lparr>row = S (case s k of None \<Rightarrow> hd rs1 | Some old \<Rightarrow> row old) (last rs2),
                      last_updated = Some t2\<rparr>"
proof -
  let ?base = "case s k of None \<Rightarrow> hd rs1 | Some old \<Rightarrow> row old"
  from load_cases [OF l1] have e1: "s1 = foldl (U d1 t1) s df1" by auto
  from load_cases [OF l2] have e2: "s2 = foldl (U d2 t2) s1 df2" by auto
  have c1: "s1 k = foldl (cell_step (\<lambda>r. \<lparr>row = r, last_updated = d1\<rparr>)
              (\<lambda>old e. \<lparr>row = S (row old) e, last_updated = Some t1\<rparr>)) (s k) rs1"
    unfolding e1 U rs1(1) by (rule foldl_upsert_at)
  have c2: "s2 k = foldl (cell_step (\<lambda>r. \<lparr>row = r, last_updated = d2\<rparr>)
              (\<lambda>old e. \<lparr>row = S (row old) e, last_updated = Some t2\<rparr>)) (s1 k) rs2"
    unfolding e2 U rs2(1) by (rule foldl_upsert_at)
  have "\<exists>lu. s1 k = Some \<lparr>row = S ?base (last rs1), last_updated = lu\<rparr>"
  proof (cases "s k")
    case None
    with c1 cell_steps_None [of S rs1 d1 t1, OF S1 S2 rs1(2)] show ?thesis by simp
  next
    case (Some old)
    with c1 cell_steps_Some [of S rs1 _ t1 old, OF S1 rs1(2)] show ?thesis by simp
  qed
  then obtain lu where f: "s1 k = Some \<lparr>row = S ?base (last rs1), last_updated = lu\<rparr>" by blast
  from c2 f cell_steps_Some [of S rs2 _ t2 "\<lparr>row = S ?base (last rs1), last_updated = lu\<rparr>", OF S1 rs2(2)]
  show ?thesis by (simp add: S1)
qed

lemma transactions_set_last: "transactions_set (transactions_set a r1) r2 = transactions_set a r2"
  by (simp add: transactions_set_def)

lemma transactions_set_same: "transactions_set r r = r"
  by (simp add: transactions_set_def)

lemma customers_set_last: "customers_set (customers_set a r1) r2 = customers_set a r2"
  by (simp add: customers_set_def)

lemma customers_set_same: "customers_set r r = r"
  by (simp add: customers_set_def)

lemma load_transactions_twice:
  assumes "load_transactions e1 t1 s df1 = (Inr (), s1)"
    and "load_transactions e2 t2 s1 df2 = (Inr (), s2)"
    and "rs1 = filter (\<lambda>r. transaction_id r = k) df1" and "rs1 \<noteq> []"
    and "rs2 = filter (\<lambda>r. transaction_id r = k) df2" and "rs2 \<noteq> []"
  shows "s2 k = Some \<lparr>row = (case s k of None \<Rightarrow> hd rs1 | Some old \<Rightarrow> row old)
                               \<lparr>transaction.status := transaction.status (last rs2)\<rparr>,
                      last_updated = Some t2\<rparr>"
  using load_twice [of transactions_set upsert_transaction transaction_id
      "stamp_default e1" t1 e1 s df1 s1 "stamp_default e2" t2 e2 df2 s2 rs1 k rs2,
      OF transactions_set_last transactions_set_same]
    assms
  by (simp add: load_transactions_def upsert_transaction_def transactions_set_def)

lemma load_customers_twice:
  assumes "load_customers e1 t1 s df1 = (Inr (), s1)"
    and "load_customers e2 t2 s1 df2 = (Inr (), s2)"
    and "rs1 = filter (\<lambda>r. customer_id r = k) df1" and "rs1 \<noteq> []"
    and "rs2 = filter (\<lambda>r. customer_id r = k) df2" and "rs2 \<noteq> []"
  shows "s2 k = Some \<lparr>row = (case s k of None \<Rightarrow> hd rs1 | Some old \<Rightarrow> row old)
                               \<lparr>last_interaction_date := last_interaction_date (last rs2),
                                satisfaction_score := satisfaction_score (last rs2),
                                nps_score := nps_score (last rs2),
                                customer.status := customer.status (last rs2)\<rparr>,
                      last_updated = Some t2\<rparr>"
  using load_twice [of customers_set upsert_customer customer_id
      "stamp_default e1" t1 e1 s df1 s1 "stamp_default e2" t2 e2 df2 s2 rs1 k rs2,
      OF customers_set_last customers_set_same]
    assms
  by (simp add: load_customers_def upsert_customer_def customers_set_def)

text \<open>A load over a session on which nothing fails applies the statement to every row.\<close>

lemma iterrows_open:
  "iterrows (\<lambda>tbl r. None) stmt conn df = (None, conn\<lparr>working := foldl stmt (working conn) df\<rparr>)"
  by (induction df arbitrary: conn) simp_all

lemma load_open: "load stmt open_session tbl df = (Inr (), foldl stmt tbl df)"
  by (simp add: load_def open_session_def iterrows_open commit_def)

lemma stamp_default_open: "stamp_default open_session = None"
  by (simp add: open_session_def)

lemma load_transactions_open:
  "load_transactions open_session t s df = (Inr (), foldl (upsert_transaction None t) s df)"
  by (simp add: load_transactions_def load_open stamp_default_open)

lemma load_customers_open:
  "load_customers open_session t s df = (Inr (), foldl (upsert_customer None t) s df)"
  by (simp add: load_customers_def load_open stamp_default_open)

text \<open>
  Claim C1, as stated, fails: the columns outside the \<open>SET\<close> clause of a row that was
  stored before the first load are not the batch's. With transaction 41 stored with the
  amount 99 and the branch 8, loading a batch that brings it with the amount 25 and the
  branch 3, twice, leaves the amount 99 and the branch 8.
\<close>

theorem reload_keeps_stored_columns:
  "fst (load_transactions open_session 100 stored_payments [payment]) = Inr ()
   \<and> fst (load_transactions open_session 200
             (snd (load_transactions open_session 100 stored_payments [payment])) [payment])
       = Inr ()
   \<and> map_option (\<lambda>cell. (amount (row cell), branch_id (row cell), transaction.status (row cell)))
        (snd (load_transactions open_session 200
                (snd (load_transactions open_session 100 stored_payments [payment])) [payment])
           41)
       = Some (99, 8, ''PENDING'')
   \<and> (amount payment, branch_id payment, transaction.status payment) = (25, 3, ''PENDING'')"
  by (simp add: load_transactions_open upsert_transaction_def insert_on_conflict_def
        stored_payments_def transactions_set_def old_payment_def payment_def)

text \<open>
  Claim C1, amended. For \<open>load_transactions\<close> and for \<open>load_customers\<close>: after a batch is
  loaded and a second batch (the same one, or another) is loaded, both loads committing,
  the row stored under a key of both batches has the columns of the \<open>SET\<close> clause
  (\<open>status\<close>, and for customers also \<open>last_interaction_date\<close>, \<open>satisfaction_score\<close> and
  \<open>nps_score\<close>) from the second batch, taken from its last row with that key, and
  \<open>last_updated\<close> stamped by the second load. Every other column is untouched by both
  loads where the key was stored before the first load: it keeps the stored row's value,
  not the batch's. Only where the key was new is it the first batch's value, taken from
  the first row with that key.
\<close>

theorem load_then_reload:
  "(load_transactions e1 t1 s df1 = (Inr (), s1) \<longrightarrow>
    load_transactions e2 t2 s1 df2 = (Inr (), s2) \<longrightarrow>
    rs1 = filter (\<lambda>r. transaction_id r = k) df1 \<longrightarrow> rs1 \<noteq> [] \<longrightarrow>
    rs2 = filter (\<lambda>r. transaction_id r = k) df2 \<longrightarrow> rs2 \<noteq> [] \<longrightarrow>
      s2 k = Some \<lparr>row = (case s k of None \<Rightarrow> hd rs1 | Some old \<Rightarrow> row old)
                           \<lparr>transaction.status := transaction.status (last rs2)\<rparr>,
                    last_updated = Some t2\<rparr>)
   \<and> (load_customers ce1 ct1 cs cdf1 = (Inr (), cs1) \<longrightarrow>
      load_customers ce2 ct2 cs1 cdf2 = (Inr (), cs2) \<longrightarrow>
      crs1 = filter (\<lambda>r. customer_id r = ck) cdf1 \<longrightarrow> crs1 \<noteq> [] \<longrightarrow>
      crs2 = filter (\<lambda>r. customer_id r = ck) cdf2 \<longrightarrow> crs2 \<noteq> [] \<longrightarrow>
        cs2 ck = Some \<lparr>row = (case cs ck of None \<Rightarrow> hd crs1 | Some old \<Rightarrow> row old)
                               \<lparr>last_interaction_date := last_interaction_date (last crs2),
                                satisfaction_score := satisfaction_score (last crs2),
                                nps_score := nps_score (last crs2),
                                customer.status := customer.status (last crs2)\<rparr>,
                        last_updated = Some ct2\<rparr>)"
  using load_transactions_twice [of e1 t1 s df1 s1 e2 t2 df2 s2 rs1 k rs2]
        load_customers_twice [of ce1 ct1 cs cdf1 cs1 ce2 ct2 cdf2 cs2 crs1 ck crs2]
  by blast

text \<open>
  Transaction 41 and customer 7 are stored, a first batch brings them with other values,
  a second batch with others again: the stored rows keep what they had outside the \<open>SET\<close>
  clause (the amount 99 and the branch 8; the first name Alicia and the city York) and
  take the second batch's status, interaction date and scores. Loaded twice into an
  empty table instead, the rows keep what the first batch brought (the amount 25, the
  city Leeds).
\<close>

theorem load_then_reload_witness:
  "(\<exists>s1 s2. load_transactions open_session 100 stored_payments [payment] = (Inr (), s1)
      \<and> load_transactions open_session 200 s1 [settled_payment] = (Inr (), s2)
      \<and> s2 41 = Some \<lparr>row = old_payment\<lparr>transaction.status := ''COMPLETED''\<rparr>,
                       last_updated = Some 200\<rparr>
      \<and> map_option (\<lambda>cell. (amount (row cell), branch_id (row cell))) (s2 41) = Some (99, 8))
 \<and> (\<exists>s1 s2. load_customers open_session 100 stored_customers [alice] = (Inr (), s1)
      \<and> load_customers open_session 200 s1 [later_alice] = (Inr (), s2)
      \<and> s2 7 = Some \<lparr>row = old_alice\<lparr>last_interaction_date := 259200,
                                      satisfaction_score := 5, nps_score := 6,
                                      customer.status := ''INACTIVE''\<rparr>,
                      last_updated = Some 200\<rparr>
      \<and> map_option (\<lambda>cell. (first_name (row cell), city (row cell))) (s2 7)
          = Some (''Alicia'', ''York''))
 \<and> (\<exists>s1 s2. load_transactions open_session 100 Map.empty [payment] = (Inr (), s1)
      \<and> load_transactions open_session 200 s1 [settled_payment] = (Inr (), s2)
      \<and> s2 41 = Some \<lparr>row = payment\<lparr>transaction.status := ''COMPLETED''\<rparr>,
                       last_updated = Some 200\<rparr>
      \<and> map_option (\<lambda>cell. amount (row cell)) (s2 41) = Some 25)
 \<and> (\<exists>s1 s2. load_customers open_session 100 Map.empty [alice] = (Inr (), s1)
      \<and> load_customers open_session 200 s1 [later_alice] = (Inr (), s2)
      \<and> s2 7 = Some \<lparr>row = alice\<lparr>last_interaction_date := 259200,
                                  satisfaction_score := 5, nps_score := 6,
                                  customer.status := ''INACTIVE''\<rparr>,
                      last_updated = Some 200\<rparr>
      \<and> map_option (\<lambda>cell. city (row cell)) (s2 7) = Some ''Leeds'')"
proof -
  have k1: "filter (\<lambda>r. transaction_id r = 41) [payment] = [payment]"
    by (simp add: payment_def)
  have k2: "filter (\<lambda>r. transaction_id r = 41) [settled_payment] = [settled_payment]"
    by (simp add: settled_payment_def payment_def)
  have c1: "filter (\<lambda>r. customer_id r = 7) [alice] = [alice]"
    by (simp add: alice_def)
  have c2: "filter (\<lambda>r. customer_id r = 7) [later_alice] = [later_alice]"
    by (simp add: later_alice_def alice_def)
  have ne: "[payment] \<noteq> []" "[settled_payment] \<noteq> []" "[alice] \<noteq> []" "[later_alice] \<noteq> []"
    by simp_all
  let ?U = "upsert_transaction None"
  let ?V = "upsert_customer None"
  note lt = load_transactions_open and lc = load_customers_open
  let ?a1 = "foldl (?U 100) stored_payments [payment]"
  let ?a2 = "foldl (?U 200) ?a1 [settled_payment]"
  let ?b1 = "foldl (?V 100) stored_customers [alice]"
  let ?b2 = "foldl (?V 200) ?b1 [later_alice]"
  let ?d1 = "foldl (?U 100) Map.empty [payment]"
  let ?d2 = "foldl (?U 200) ?d1 [settled_payment]"
  let ?e1 = "foldl (?V 100) Map.empty [alice]"
  let ?e2 = "foldl (?V 200) ?e1 [later_alice]"
  have a: "?a2 41 = Some \<lparr>row = old_payment\<lparr>transaction.status := ''COMPLETED''\<rparr>,
                          last_updated = Some 200\<rparr>"
    using load_then_reload [where ?e1.0 = open_session and ?t1.0 = 100 and s = stored_payments
        and ?df1.0 = "[payment]" and ?s1.0 = ?a1 and ?e2.0 = open_session and ?t2.0 = 200
        and ?df2.0 = "[settled_payment]" and ?s2.0 = ?a2 and ?rs1.0 = "[payment]" and k = 41
        and ?rs2.0 = "[settled_payment]",
        THEN conjunct1, rule_format, OF lt lt k1 [symmetric] ne(1) k2 [symmetric] ne(2)]
    by (simp add: stored_payments_def settled_payment_def)
  have b: "?b2 7 = Some \<lparr>row = old_alice\<lparr>last_interaction_date := 259200,
                                      satisfaction_score := 5, nps_score := 6,
                                      customer.status := ''INACTIVE''\<rparr>,
                      last_updated = Some 200\<rparr>"
    using load_then_reload [where ?ce1.0 = open_session and ?ct1.0 = 100 and cs = stored_customers
        and ?cdf1.0 = "[alice]" and ?cs1.0 = ?b1 and ?ce2.0 = open_session and ?ct2.0 = 200
        and ?cdf2.0 = "[later_alice]" and ?cs2.0 = ?b2 and ?crs1.0 = "[alice]" and ck = 7
        and ?crs2.0 = "[later_alice]",
        THEN conjunct2, rule_format, OF lc lc c1 [symmetric] ne(3) c2 [symmetric] ne(4)]
    by (simp add: stored_customers_def later_alice_def)
  have d: "?d2 41 = Some \<lparr>row = payment\<lparr>transaction.status := ''COMPLETED''\<rparr>,
                          last_updated = Some 200\<rparr>"
    using load_then_reload [where ?e1.0 = open_session and ?t1.0 = 100 and s = Map.empty
        and ?df1.0 = "[payment]" and ?s1.0 = ?d1 and ?e2.0 = open_session and ?t2.0 = 200
        and ?df2.0 = "[settled_payment]" and ?s2.0 = ?d2 and ?rs1.0 = "[payment]" and k = 41
        and ?rs2.0 = "[settled_payment]",
        THEN conjunct1, rule_format, OF lt lt k1 [symmetric] ne(1) k2 [symmetric] ne(2)]
    by (simp add: settled_payment_def)
  have e: "?e2 7 = Some \<lparr>row = alice\<lparr>last_interaction_date := 259200,
                                  satisfaction_score := 5, nps_score := 6,
                                  customer.status := ''INACTIVE''\<rparr>,
                      last_updated = Some 200\<rparr>"
    using load_then_reload [where ?ce1.0 = open_session and ?ct1.0 = 100 and cs = Map.empty
        and ?cdf1.0 = "[alice]" and ?cs1.0 = ?e1 and ?ce2.0 = open_session and ?ct2.0 = 200
        and ?cdf2.0 = "[later_alice]" and ?cs2.0 = ?e2 and ?crs1.0 = "[alice]" and ck = 7
        and ?crs2.0 = "[later_alice]",
        THEN conjunct2, rule_format, OF lc lc c1 [symmetric] ne(3) c2 [symmetric] ne(4)]
    by (simp add: later_alice_def)
  have a': "map_option (\<lambda>cell. (amount (row cell), branch_id (row cell))) (?a2 41) = Some (99, 8)"
    unfolding a by (simp add: old_payment_def)
  have b': "map_option (\<lambda>cell. (first_name (row cell), city (row cell))) (?b2 7)
          = Some (''Alicia'', ''York'')"
    unfolding b by (simp add: old_alice_def)
  have d': "map_option (\<lambda>cell. amount (row cell)) (?d2 41) = Some 25"
    unfolding d by (simp add: payment_def)
  have e': "map_option (\<lambda>cell. city (row cell)) (?e2 7) = Some ''Leeds''"
    unfolding e by (simp add: alice_def)
  have 1: "\<exists>s1 s2. load_transactions open_session 100 stored_payments [payment] = (Inr (), s1)
      \<and> load_transactions open_session 200 s1 [settled_payment] = (Inr (), s2)
      \<and> s2 41 = Some \<lparr>row = old_payment\<lparr>transaction.status := ''COMPLETED''\<rparr>,
                       last_updated = Some 200\<rparr>
      \<and> map_option (\<lambda>cell. (amount (row cell), branch_id (row cell))) (s2 41) = Some (99, 8)"
    using lt [of 100 stored_payments "[payment]"] lt [of 200 ?a1 "[settled_payment]"] a a'
    by blast
  have 2: "\<exists>s1 s2. load_customers open_session 100 stored_customers [alice] = (Inr (), s1)
      \<and> load_customers open_session 200 s1 [later_alice] = (Inr (), s2)
      \<and> s2 7 = Some \<lparr>row = old_alice\<lparr>last_interaction_date := 259200,
                                      satisfaction_score := 5, nps_score := 6,
                                      customer.status := ''INACTIVE''\<rparr>,
                      last_updated = Some 200\<rparr>
      \<and> map_option (\<lambda>cell. (first_name (row cell), city (row cell))) (s2 7)
          = Some (''Alicia'', ''York'')"
    using lc [of 100 stored_customers "[alice]"] lc [of 200 ?b1 "[later_alice]"] b b'
    by blast
  have 3: "\<exists>s1 s2. load_transactions open_session 100 Map.empty [payment] = (Inr (), s1)
      \<and> load_transactions open_session 200 s1 [settled_payment] = (Inr (), s2)
      \<and> s2 41 = Some \<lparr>row = payment\<lparr>transaction.status := ''COMPLETED''\<rparr>,
                       last_updated = Some 200\<rparr>
      \<and> map_option (\<lambda>cell. amount (row cell)) (s2 41) = Some 25"
    using lt [of 100 Map.empty "[payment]"] lt [of 200 ?d1 "[settled_payment]"] d d'
    by blast
  have 4: "\<exists>s1 s2. load_customers open_session 100 Map.empty [alice] = (Inr (), s1)
      \<and> load_customers open_session 200 s1 [later_alice] = (Inr (), s2)
      \<and> s2 7 = Some \<lparr>row = alice\<lparr>last_interaction_date := 259200,
                                  satisfaction_score := 5, nps_score := 6,
                                  customer.status := ''INACTIVE''\<rparr>,
                      last_updated = Some 200\<rparr>
      \<and> map_option (\<lambda>cell. city (row cell)) (s2 7) = Some ''Leeds''"
    using lc [of 100 Map.empty "[alice]"] lc [of 200 ?e1 "[later_alice]"] e e'
    by blast
  from 1 2 3 4 show ?thesis by (intro conjI)
qed

text \<open>
  Claim C7. For \<open>load_transactions\<close> and for \<open>load_customers\<close>: a load that raises leaves the
  stored table as it was; a load that returns has applied the statement to every row of
  the batch, in order, and every key of the batch is stored; and when \<open>cursor.execute\<close>
  raises on some row of the batch, the load raises and the stored table is unchanged,
  whatever the rows before it had written.
\<close>

theorem load_all_or_nothing:
  "(load_transactions sess now tbl df = (res, tbl') \<longrightarrow>
      (case res of
         Inl e \<Rightarrow> tbl' = tbl
       | Inr u \<Rightarrow> tbl' = foldl (upsert_transaction (stamp_default sess) now) tbl df
                 \<and> transaction_id ` set df \<subseteq> dom tbl'))
   \<and> (connects sess \<longrightarrow> i < length df \<longrightarrow>
        violation sess (foldl (upsert_transaction (stamp_default sess) now) tbl (take i df)) (df ! i)
          \<noteq> None \<longrightarrow>
        (\<exists>k e. k \<le> i
           \<and> violation sess
                 (foldl (upsert_transaction (stamp_default sess) now) tbl (take k df)) (df ! k)
               = Some e
           \<and> load_transactions sess now tbl df = (Inl e, tbl)))
   \<and> (load_customers csess cnow ctbl cdf = (cres, ctbl') \<longrightarrow>
      (case cres of
         Inl e \<Rightarrow> ctbl' = ctbl
       | Inr u \<Rightarrow> ctbl' = foldl (upsert_customer (stamp_default csess) cnow) ctbl cdf
                 \<and> customer_id ` set cdf \<subseteq> dom ctbl'))
   \<and> (connects csess \<longrightarrow> j < length cdf \<longrightarrow>
        violation csess (foldl (upsert_customer (stamp_default csess) cnow) ctbl (take j cdf)) (cdf ! j)
          \<noteq> None \<longrightarrow>
        (\<exists>k e. k \<le> j
           \<and> violation csess
                 (foldl (upsert_customer (stamp_default csess) cnow) ctbl (take k cdf)) (cdf ! k)
               = Some e
           \<and> load_customers csess cnow ctbl cdf = (Inl e, ctbl)))"
proof -
  have a: "load_transactions sess now tbl df = (res, tbl') \<longrightarrow>
      (case res of
         Inl e \<Rightarrow> tbl' = tbl
       | Inr u \<Rightarrow> tbl' = foldl (upsert_transaction (stamp_default sess) now) tbl df
                 \<and> transaction_id ` set df \<subseteq> dom tbl')"
    using load_cases [of "upsert_transaction (stamp_default sess) now" sess tbl df res tbl']
      foldl_upsert_dom [of transaction_id _ _ tbl df]
    by (auto simp: load_transactions_def upsert_transaction_def)
  have b: "connects sess \<longrightarrow> i < length df \<longrightarrow>
        violation sess (foldl (upsert_transaction (stamp_default sess) now) tbl (take i df)) (df ! i)
          \<noteq> None \<longrightarrow>
        (\<exists>k e. k \<le> i
           \<and> violation sess
                 (foldl (upsert_transaction (stamp_default sess) now) tbl (take k df)) (df ! k)
               = Some e
           \<and> load_transactions sess now tbl df = (Inl e, tbl))"
    using load_row_failure [of sess i df "upsert_transaction (stamp_default sess) now" tbl]
    by (simp add: load_transactions_def)
  have c: "load_customers csess cnow ctbl cdf = (cres, ctbl') \<longrightarrow>
      (case cres of
         Inl e \<Rightarrow> ctbl' = ctbl
       | Inr u \<Rightarrow> ctbl' = foldl (upsert_customer (stamp_default csess) cnow) ctbl cdf
                 \<and> customer_id ` set cdf \<subseteq> dom ctbl')"
    using load_cases [of "upsert_customer (stamp_default csess) cnow" csess ctbl cdf cres ctbl']
      foldl_upsert_dom [of customer_id _ _ ctbl cdf]
    by (auto simp: load_customers_def upsert_customer_def)
  have d: "connects csess \<longrightarrow> j < length cdf \<longrightarrow>
        violation csess (foldl (upsert_customer (stamp_default csess) cnow) ctbl (take j cdf)) (cdf ! j)
          \<noteq> None \<longrightarrow>
        (\<exists>k e. k \<le> j
           \<and> violation csess
                 (foldl (upsert_customer (stamp_default csess) cnow) ctbl (take k cdf)) (cdf ! k)
               = Some e
           \<and> load_customers csess cnow ctbl cdf = (Inl e, ctbl))"
    using load_row_failure [of csess j cdf "upsert_customer (stamp_default csess) cnow" ctbl]
    by (simp add: load_customers_def)
  from a b c d show ?thesis by blast
qed

theorem load_all_or_nothing_witness:
  "load_transactions rejecting_session 100 Map.empty [payment, big_payment]
     = (Inl DataError, Map.empty)
   \<and> (\<exists>tbl'. load_transactions open_session 100 Map.empty [payment] = (Inr (), tbl')
         \<and> 41 \<in> dom tbl')"
proof -
  have v: "violation rejecting_session
             (foldl (upsert_transaction (stamp_default rejecting_session) 100) Map.empty
                (take 1 [payment, big_payment]))
             ([payment, big_payment] ! 1) \<noteq> None"
    by (simp add: rejecting_session_def big_payment_def)
  have c: "connects rejecting_session" by (simp add: rejecting_session_def)
  have l: "(1::nat) < length [payment, big_payment]" by simp
  from load_all_or_nothing [where sess = rejecting_session and now = 100 and tbl = Map.empty
        and df = "[payment, big_payment]" and i = 1,
      THEN conjunct2, THEN conjunct1, rule_format, OF c l v]
  obtain e where e: "load_transactions rejecting_session 100 Map.empty [payment, big_payment]
      = (Inl e, Map.empty)" by blast
  moreover have "fst (load_transactions rejecting_session 100 Map.empty [payment, big_payment])
      = Inl DataError"
    by (simp add: load_transactions_def load_def rejecting_session_def payment_def big_payment_def)
  ultimately have 1: "load_transactions rejecting_session 100 Map.empty [payment, big_payment]
     = (Inl DataError, Map.empty)" by simp
  have 2: "load_transactions open_session 100 Map.empty [payment]
      = (Inr (), upsert_transaction None 100 Map.empty payment)"
    by (simp add: load_transactions_def load_def open_session_def commit_def)
  from load_all_or_nothing [where sess = open_session and now = 100 and tbl = Map.empty
        and df = "[payment]" and res = "Inr ()"
        and tbl' = "upsert_transaction None 100 Map.empty payment",
      THEN conjunct1, rule_format, OF 2]
  have "transaction_id ` set [payment] \<subseteq> dom (upsert_transaction None 100 Map.empty payment)"
    by (simp add: open_session_def)
  then have "41 \<in> dom (upsert_transaction None 100 Map.empty payment)"
    by (simp add: payment_def)
  with 1 2 show ?thesis by blast
qed

section \<open>Properties of the transforms and of the daily run\<close>

text \<open>
  Claim C6 fails on the code: \<open>transform_customers\<close> reads \<open>.dt.years\<close> of a series of time
  spans, an attribute pandas does not have, so it raises \<open>AttributeError\<close> on every batch
  and never returns an enriched batch.
\<close>

theorem transform_customers_raises: "transform_customers now df = Inl AttributeError"
  by (simp add: transform_customers_def timedelta_dt_def)

text \<open>
  A consequence for the daily run: it never returns normally, and \<open>load_customers\<close> is
  never called.
\<close>

lemma daily_run_always_raises: "\<exists>e. fst (run_daily_etl env now db) = Inl e"
  by (auto simp: run_daily_etl_def customers_pipeline_def transform_customers_def
        timedelta_dt_def split: prod.splits sum.splits)

lemma load_customers_unreachable:
  "Load Customers \<notin> set (snd (snd (run_daily_etl env now db)))"
  by (auto simp: run_daily_etl_def transactions_pipeline_def customers_pipeline_def
        transform_customers_def timedelta_dt_def split: prod.splits sum.splits)

text \<open>
  The transaction transform raises exactly when a time of the batch does not parse.
  Otherwise it keeps the rows with a non-negative amount and a known status: a row with
  amount 0 stays, a row with amount -5 is dropped.
\<close>

lemma add_weekend_columns_fields:
  "amount (add_weekend_columns r) = amount r"
  "transaction.status (add_weekend_columns r) = transaction.status r"
  "transaction_id (add_weekend_columns r) = transaction_id r"
  by (simp_all add: add_weekend_columns_def transaction.defs transformed_transaction.defs)

lemma convert_times_raises:
  "(\<exists>e. convert_times parse df = Inl e) = (\<exists>r \<in> set df. \<exists>e. parse (transaction_time r) = Inl e)"
  by (induction df) (auto split: sum.splits)

lemma transform_transactions_raises:
  "(\<exists>e. transform_transactions parse df = Inl e)
     = (\<exists>r \<in> set df. \<exists>e. parse (transaction_time r) = Inl e)"
  using convert_times_raises [of parse df]
  by (auto simp: transform_transactions_def split: sum.splits)

lemma transform_transactions_keeps:
  assumes "transform_transactions parse df = Inr out"
  shows "\<exists>converted. convert_times parse df = Inr converted
           \<and> set out = add_weekend_columns ` {r \<in> set converted. amount r \<ge> 0
                 \<and> transaction.status r \<in> {''COMPLETED'', ''PENDING'', ''FAILED''}}"
  using assms
  by (auto simp: transform_transactions_def add_weekend_columns_fields split: sum.splits)













end
